theory Spec2Isabelle
  imports Complex_Main "HOL-Library.Word"
begin

section \<open>Scan-to-map matching: the \<open>Matching\<close> class of \<open>matching.cpp\<close>\<close>

text \<open>
  The development embeds the class \<open>lidar_localization::Matching\<close>: its members and the
  function-local statics become the fields of one record, each member function becomes a
  function from the state before the call to the state after it.

  Conventions of the embedding.
  \<^item> A single-precision number (a pose coefficient, a box edge, an argument of
    \<open>ResetLocalMap\<close>, a coordinate of a point) is a real number, an infinity or a NaN.
    The subtraction of two such numbers rounds; it is the platform's and so belongs to
    the collaborators below. \<open>fabs\<close> and the comparison with the constant \<open>50.0\<close> are
    exact, and a NaN is not greater than anything.
  \<^item> \<open>Eigen::Matrix4f\<close> is an abstract type \<open>'p\<close>; its product, inverse, identity and
    coefficient access belong to the collaborators below, so that nothing is assumed of
    floating-point matrix arithmetic that a theorem does not state as a hypothesis.
  \<^item> Point clouds live in a store: an address stands for one cloud object, as the owner of
    a \<open>CLOUD_PTR\<close> sees it; \<open>new CloudData::CLOUD()\<close> takes the next unused address.
    A filter or the registration writes its result to the cloud its output handle designates.
  \<^item> The filters, the box filter, the registration, the scan-context index, the map file
    and the PCL routines are not part of \<open>matching.cpp\<close>; they are parameters, collected
    in the record \<open>collaborators\<close>. \<open>InitWithConfig\<close> only selects them, so the
    configuration is represented by the record itself.
\<close>

subsection \<open>Points and clouds\<close>

datatype coord = Finite real | PosInf | NegInf | NaN

type_synonym point = "coord \<times> coord \<times> coord"

type_synonym cloud = "point list"

type_synonym addr = nat

fun is_finite :: "coord \<Rightarrow> bool" where
  "is_finite (Finite r) = True"
| "is_finite PosInf = False"
| "is_finite NegInf = False"
| "is_finite NaN = False"

fun finite_point :: "point \<Rightarrow> bool" where
  "finite_point (x, y, z) = (is_finite x \<and> is_finite y \<and> is_finite z)"

text \<open>\<open>fabs\<close>, and \<open>a > c\<close> for a single-precision \<open>a\<close> and a constant \<open>c\<close>.\<close>

fun fabs :: "coord \<Rightarrow> coord" where
  "fabs (Finite r) = Finite \<bar>r\<bar>"
| "fabs PosInf = PosInf"
| "fabs NegInf = PosInf"
| "fabs NaN = NaN"

fun float_gt :: "coord \<Rightarrow> real \<Rightarrow> bool" where
  "float_gt (Finite r) c = (c < r)"
| "float_gt PosInf c = True"
| "float_gt NegInf c = False"
| "float_gt NaN c = False"

text \<open>
  Modelled from the spec: \<open>pcl::removeNaNFromPointCloud\<close>, a routine of the PCL library
  (spec 4.4 step 1: "remove points with invalid (non-finite) coordinates"). It keeps the
  points whose three coordinates are finite, in their order.
\<close>

definition removeNaNFromPointCloud :: "cloud \<Rightarrow> cloud" where
  "removeNaNFromPointCloud c = filter finite_point c"

subsection \<open>The box filter's edges\<close>

text \<open>
  Modelled from the spec: the vector \<open>BoxFilter::GetEdge\<close> returns (\<open>box_filter.hpp\<close> is
  not among the sources) holds the six edges \<open>(xmin, xmax, ymin, ymax, zmin, zmax)\<close>
  (spec 3 and 6). \<open>edge.at(k)\<close> is read for \<open>k = 0 .. 5\<close> only, which is in range for
  six values, so the \<open>out_of_range\<close> exception of \<open>at\<close> has no branch.
\<close>

type_synonym edges = "coord \<times> coord \<times> coord \<times> coord \<times> coord \<times> coord"

fun edge_at :: "edges \<Rightarrow> nat \<Rightarrow> coord" where
  "edge_at (e0, e1, e2, e3, e4, e5) k =
     (if k = 0 then e0 else if k = 1 then e1 else if k = 2 then e2
      else if k = 3 then e3 else if k = 4 then e4 else e5)"

subsection \<open>Collaborators\<close>

record 'p collaborators =
  pose_mult :: "'p \<Rightarrow> 'p \<Rightarrow> 'p"
  pose_inverse :: "'p \<Rightarrow> 'p"
  pose_identity :: "'p"
  pose_coeff :: "'p \<Rightarrow> nat \<Rightarrow> nat \<Rightarrow> coord"
  float_sub :: "coord \<Rightarrow> coord \<Rightarrow> coord"
  loaded_map :: "cloud"
  global_map_filter :: "cloud \<Rightarrow> cloud"
  local_map_filter :: "cloud \<Rightarrow> cloud"
  frame_filter :: "cloud \<Rightarrow> cloud"
  box_edge :: "coord \<times> coord \<times> coord \<Rightarrow> edges"
  box_filter :: "coord \<times> coord \<times> coord \<Rightarrow> cloud \<Rightarrow> cloud"
  scan_match :: "cloud \<Rightarrow> cloud \<Rightarrow> 'p \<Rightarrow> cloud \<times> 'p"
  detect_loop_closure :: "cloud \<Rightarrow> 'p option"
  transform_cloud :: "'p \<Rightarrow> cloud \<Rightarrow> cloud"

text \<open>
  \<^item> \<open>pose_mult\<close>, \<open>pose_inverse\<close>, \<open>pose_identity\<close>: Eigen's \<open>operator*\<close>,
    \<open>inverse()\<close> and \<open>Matrix4f::Identity()\<close>; \<open>pose_coeff P i j\<close> is \<open>P(i, j)\<close>.
  \<^item> \<open>float_sub a b\<close>: the difference \<open>a - b\<close> of two \<open>float\<close>s as the platform computes
    it, rounded to a \<open>float\<close>.
  \<^item> \<open>loaded_map\<close>: the cloud \<open>pcl::io::loadPCDFile\<close> reads from \<open>map_path_\<close>.
  \<^item> \<open>global_map_filter\<close>, \<open>local_map_filter\<close>, \<open>frame_filter\<close>: the three
    \<open>CloudFilterInterface::Filter\<close> instances chosen by \<open>InitFilter\<close>.
  \<^item> \<open>box_edge origin\<close>: what \<open>GetEdge\<close> returns after \<open>SetOrigin origin\<close>;
    \<open>box_filter origin\<close>: \<open>BoxFilter::Filter\<close> with that origin.
  \<^item> \<open>scan_match target source seed\<close>: \<open>ScanMatch\<close> against the target of the last
    \<open>SetInputTarget\<close>; it yields the result cloud and the refined pose.
  \<^item> \<open>detect_loop_closure scan\<close>: \<open>DetectLoopClosure\<close>, \<open>Some\<close> of the proposed pose
    when it returns true, \<open>None\<close> when it returns false.
  \<^item> \<open>transform_cloud\<close>: \<open>pcl::transformPointCloud\<close>.
\<close>

subsection \<open>The state\<close>

datatype 'p log_line =
    LogInitLocalization
  | LogLoadGlobalMap nat
  | LogFilteredGlobalMap nat
  | LogNewLocalMap edges
  | LogInitPose 'p

record 'p matching =
  heap :: "addr \<Rightarrow> cloud"
  next_addr :: addr
  global_map_ptr :: addr
  local_map_ptr :: addr
  current_scan_ptr :: addr
  box_origin :: "coord \<times> coord \<times> coord"
  reg_target :: cloud
  init_pose :: 'p
  current_gnss_pose :: 'p
  has_inited :: bool
  has_new_global_map :: bool
  has_new_local_map :: bool
  gnss_cnt :: "32 word"
  predictor :: "('p \<times> 'p \<times> 'p) option"
  info_log :: "'p log_line list"

text \<open>
  \<^item> \<open>heap\<close>, \<open>next_addr\<close>: the clouds, and the first address no \<open>new\<close> has handed out.
  \<^item> \<open>box_origin\<close>: the origin the box filter holds (\<open>SetOrigin\<close>);
    \<open>reg_target\<close>: the cloud the registration was given by \<open>SetInputTarget\<close>.
  \<^item> \<open>gnss_cnt\<close>: the static \<open>int\<close> of \<open>SetGNSSPose\<close>, 32 bits, compared as signed;
    the increment wraps around (in C++ the overflow of an \<open>int\<close> is undefined).
  \<^item> \<open>predictor\<close>: the statics \<open>(step_pose, last_pose, predict_pose)\<close> of \<open>Update\<close>,
    \<open>None\<close> until the first call initialises them.
  \<^item> \<open>info_log\<close>: the lines written with \<open>LOG(INFO)\<close>, oldest first.
\<close>

definition new_cloud :: "cloud \<Rightarrow> 'p matching \<Rightarrow> addr \<times> 'p matching" where
  "new_cloud c st =
     (next_addr st,
      st\<lparr>heap := (heap st)(next_addr st := c), next_addr := Suc (next_addr st)\<rparr>)"

text \<open>The addresses handed out so far.\<close>

definition allocated :: "'p matching \<Rightarrow> addr \<Rightarrow> bool" where
  "allocated st a \<longleftrightarrow> a < next_addr st"

definition GetEdge :: "'p collaborators \<Rightarrow> 'p matching \<Rightarrow> edges" where
  "GetEdge ext st = box_edge ext (box_origin st)"

subsection \<open>Construction\<close>

definition InitGlobalMap :: "'p collaborators \<Rightarrow> 'p matching \<Rightarrow> 'p matching" where
  "InitGlobalMap ext st =
     (let g = global_map_ptr st;
          st1 = st\<lparr>heap := (heap st)(g := loaded_map ext)\<rparr>;
          st2 = st1\<lparr>info_log := info_log st1 @ [LogLoadGlobalMap (length (heap st1 g))]\<rparr>;
          st3 = st2\<lparr>heap := (heap st2)(g := local_map_filter ext (heap st2 g))\<rparr>;
          st4 = st3\<lparr>info_log := info_log st3 @ [LogFilteredGlobalMap (length (heap st3 g))]\<rparr>
      in st4\<lparr>has_new_global_map := True\<rparr>)"

definition ResetLocalMap ::
  "'p collaborators \<Rightarrow> coord \<Rightarrow> coord \<Rightarrow> coord \<Rightarrow> 'p matching \<Rightarrow> 'p matching" where
  "ResetLocalMap ext x y z st =
     (let st1 = st\<lparr>box_origin := (x, y, z)\<rparr>;
          st2 = st1\<lparr>heap := (heap st1)(local_map_ptr st1 :=
                   box_filter ext (box_origin st1) (heap st1 (global_map_ptr st1)))\<rparr>;
          st3 = st2\<lparr>reg_target := heap st2 (local_map_ptr st2)\<rparr>;
          st4 = st3\<lparr>has_new_local_map := True\<rparr>
      in st4\<lparr>info_log := info_log st4 @ [LogNewLocalMap (GetEdge ext st4)]\<rparr>)"

text \<open>
  Modelled from the spec: the members' initial values, which \<open>matching.hpp\<close> declares
  and which are not among the sources. By spec 4.2 and 4.3 the poses start as the
  identity, the arbiter starts uninitialised, and no flag is set. The three handles get
  their clouds in the constructor below.
\<close>

definition empty_matching :: "'p collaborators \<Rightarrow> 'p matching" where
  "empty_matching ext =
     \<lparr>heap = (\<lambda>a. []), next_addr = 0,
      global_map_ptr = 0, local_map_ptr = 0, current_scan_ptr = 0,
      box_origin = (Finite 0, Finite 0, Finite 0), reg_target = [],
      init_pose = pose_identity ext, current_gnss_pose = pose_identity ext,
      has_inited = False, has_new_global_map = False, has_new_local_map = False,
      gnss_cnt = 0, predictor = None, info_log = []\<rparr>"

definition Matching :: "'p collaborators \<Rightarrow> 'p matching" where
  "Matching ext =
     (let st0 = empty_matching ext;
          (g, st1) = new_cloud [] st0;
          (l, st2) = new_cloud [] (st1\<lparr>global_map_ptr := g\<rparr>);
          (c, st3) = new_cloud [] (st2\<lparr>local_map_ptr := l\<rparr>);
          st4 = st3\<lparr>current_scan_ptr := c\<rparr>;
          st5 = st4\<lparr>info_log := info_log st4 @ [LogInitLocalization]\<rparr>;
          st6 = InitGlobalMap ext st5
      in ResetLocalMap ext (Finite 0) (Finite 0) (Finite 0) st6)"

subsection \<open>The per-scan update\<close>

text \<open>
  The three statics of \<open>Update\<close> as the body finds them: their initialisers
  (\<open>Identity\<close>, \<open>init_pose_\<close>, \<open>init_pose_\<close>) run when the first call enters the function,
  with the value \<open>init_pose_\<close> has then; later calls find what the call before left.
\<close>

definition statics_on_entry :: "'p collaborators \<Rightarrow> 'p matching \<Rightarrow> 'p \<times> 'p \<times> 'p" where
  "statics_on_entry ext st =
     (case predictor st of
        None \<Rightarrow> (pose_identity ext, init_pose st, init_pose st)
      | Some statics \<Rightarrow> statics)"

text \<open>
  The body of \<open>Update\<close> up to the predictor (lines 146 to 170): the caller's cloud at
  \<open>scan\<close> is cleaned in place; two clouds are allocated, for the downsampled scan and for
  the registration result; the seed is \<open>current_gnss_pose_\<close> while \<open>has_inited_\<close> is
  false; the transformed scan is written to the cloud of \<open>current_scan_ptr_\<close>.
\<close>

definition scan_to_map ::
  "'p collaborators \<Rightarrow> addr \<Rightarrow> 'p matching \<Rightarrow> 'p \<times> 'p matching" where
  "scan_to_map ext scan st =
     (let (step_pose, last_pose, predict_pose) = statics_on_entry ext st;
          st1 = st\<lparr>heap := (heap st)(scan := removeNaNFromPointCloud (heap st scan))\<rparr>;
          (filtered_cloud_ptr, st2) = new_cloud [] st1;
          st3 = st2\<lparr>heap := (heap st2)(filtered_cloud_ptr := frame_filter ext (heap st2 scan))\<rparr>;
          predict_pose1 = (if \<not> has_inited st3 then current_gnss_pose st3 else predict_pose);
          (result_cloud_ptr, st4) = new_cloud [] st3;
          (result_cloud, cloud_pose) =
            scan_match ext (reg_target st4) (heap st4 filtered_cloud_ptr) predict_pose1;
          st5 = st4\<lparr>heap := (heap st4)(result_cloud_ptr := result_cloud)\<rparr>;
          st6 = st5\<lparr>heap := (heap st5)(current_scan_ptr st5 :=
                   transform_cloud ext cloud_pose (heap st5 scan))\<rparr>;
          step_pose1 = pose_mult ext (pose_inverse ext last_pose) cloud_pose;
          predict_pose2 = pose_mult ext cloud_pose step_pose1;
          last_pose1 = cloud_pose
      in (cloud_pose, st6\<lparr>predictor := Some (step_pose1, last_pose1, predict_pose2)\<rparr>))"

text \<open>
  The loop over the three axes (lines 174 to 184), started at \<open>i\<close>. The result is the
  value of \<open>i\<close> when the loop is left (3 when it ran to its end) and the state.
\<close>

function check_axes ::
  "'p collaborators \<Rightarrow> edges \<Rightarrow> 'p \<Rightarrow> nat \<Rightarrow> 'p matching \<Rightarrow> nat \<times> 'p matching" where
  "check_axes ext edge cloud_pose i st =
     (if i < 3 then
        (if float_gt (fabs (float_sub ext (pose_coeff ext cloud_pose i 3)
                               (edge_at edge (2 * i)))) 50 \<and>
            float_gt (fabs (float_sub ext (pose_coeff ext cloud_pose i 3)
                               (edge_at edge (2 * i + 1)))) 50
         then check_axes ext edge cloud_pose (i + 1) st
         else (i, ResetLocalMap ext (pose_coeff ext cloud_pose 0 3)
                    (pose_coeff ext cloud_pose 1 3) (pose_coeff ext cloud_pose 2 3) st))
      else (i, st))"
  by pat_completeness auto
termination
  by (relation "measure (\<lambda>(ext, edge, cloud_pose, i, st). 3 - i)") auto

text \<open>\<open>Update\<close> returns \<open>true\<close> always; the model returns the pose it writes to \<open>cloud_pose\<close>.\<close>

definition Update ::
  "'p collaborators \<Rightarrow> addr \<Rightarrow> 'p matching \<Rightarrow> 'p \<times> 'p matching" where
  "Update ext scan st =
     (let (cloud_pose, st1) = scan_to_map ext scan st;
          edge = GetEdge ext st1
      in (cloud_pose, snd (check_axes ext edge cloud_pose 0 st1)))"

subsection \<open>Initialisation\<close>

definition SetInitPose :: "'p collaborators \<Rightarrow> 'p \<Rightarrow> 'p matching \<Rightarrow> 'p matching" where
  "SetInitPose ext pose st =
     ResetLocalMap ext (pose_coeff ext pose 0 3) (pose_coeff ext pose 1 3)
       (pose_coeff ext pose 2 3) (st\<lparr>init_pose := pose\<rparr>)"

definition SetGNSSPose :: "'p collaborators \<Rightarrow> 'p \<Rightarrow> 'p matching \<Rightarrow> 'p matching" where
  "SetGNSSPose ext gnss_pose st =
     (let st1 = st\<lparr>current_gnss_pose := gnss_pose\<rparr>;
          st2 = st1\<lparr>info_log := info_log st1 @ [LogInitPose (current_gnss_pose st1)]\<rparr>;
          st3 = (if gnss_cnt st2 = 0 then SetInitPose ext gnss_pose st2
                 else if 3 <s gnss_cnt st2 then st2\<lparr>has_inited := True\<rparr>
                 else st2)
      in st3\<lparr>gnss_cnt := gnss_cnt st3 + 1\<rparr>)"

definition SetScanContextPose ::
  "'p collaborators \<Rightarrow> addr \<Rightarrow> 'p matching \<Rightarrow> bool \<times> 'p matching" where
  "SetScanContextPose ext init_scan st =
     (case detect_loop_closure ext (heap st init_scan) of
        None \<Rightarrow> (False, st)
      | Some pose \<Rightarrow>
          (let st1 = SetInitPose ext pose st;
               st2 = st1\<lparr>has_inited := True\<rparr>
           in (True, st2\<lparr>info_log := info_log st2 @ [LogInitPose pose]\<rparr>)))"

definition SetInited :: "'p matching \<Rightarrow> 'p matching" where
  "SetInited st = st\<lparr>has_inited := True\<rparr>"

subsection \<open>Queries\<close>

definition GetInitPose :: "'p matching \<Rightarrow> 'p" where
  "GetInitPose st = init_pose st"

text \<open>\<open>GetGlobalMap\<close> filters into the caller's cloud at \<open>out\<close> and clears the flag.\<close>

definition GetGlobalMap :: "'p collaborators \<Rightarrow> addr \<Rightarrow> 'p matching \<Rightarrow> 'p matching" where
  "GetGlobalMap ext out st =
     (let st1 = st\<lparr>heap := (heap st)(out := global_map_filter ext (heap st (global_map_ptr st)))\<rparr>
      in st1\<lparr>has_new_global_map := False\<rparr>)"

text \<open>The two getters return the member handle; the state after the call is the state before.\<close>

definition GetLocalMap :: "'p matching \<Rightarrow> addr \<times> 'p matching" where
  "GetLocalMap st = (local_map_ptr st, st)"

definition GetCurrentScan :: "'p matching \<Rightarrow> addr \<times> 'p matching" where
  "GetCurrentScan st = (current_scan_ptr st, st)"

definition HasInited :: "'p matching \<Rightarrow> bool" where
  "HasInited st = has_inited st"

definition HasNewGlobalMap :: "'p matching \<Rightarrow> bool" where
  "HasNewGlobalMap st = has_new_global_map st"

definition HasNewLocalMap :: "'p matching \<Rightarrow> bool" where
  "HasNewLocalMap st = has_new_local_map st"

subsection \<open>Calls from the host, and runs\<close>

text \<open>
  The host's calls, named as in section 6 of the spec. A call that takes a cloud has the
  caller's cloud put in the store first (the caller owns it; its address is new), and
  \<open>GlobalMapForDisplay\<close> passes a new, empty cloud for the result.
\<close>

datatype 'p call =
    SubmitCoarseFix 'p
  | SubmitPlaceRecognition cloud
  | MarkInitialized
  | UpdateScan cloud
  | GlobalMapForDisplay
  | LocalMap

fun exec :: "'p collaborators \<Rightarrow> 'p call \<Rightarrow> 'p matching \<Rightarrow> 'p matching" where
  "exec ext (SubmitCoarseFix g) st = SetGNSSPose ext g st"
| "exec ext (SubmitPlaceRecognition c) st =
     (let (a, st1) = new_cloud c st in snd (SetScanContextPose ext a st1))"
| "exec ext MarkInitialized st = SetInited st"
| "exec ext (UpdateScan c) st =
     (let (a, st1) = new_cloud c st in snd (Update ext a st1))"
| "exec ext GlobalMapForDisplay st =
     (let (a, st1) = new_cloud [] st in GetGlobalMap ext a st1)"
| "exec ext LocalMap st = snd (GetLocalMap st)"

definition run :: "'p collaborators \<Rightarrow> 'p call list \<Rightarrow> 'p matching \<Rightarrow> 'p matching" where
  "run ext cs st = fold (exec ext) cs st"


subsection \<open>Notions of the spec, read on the state\<close>

text \<open>
  The arbiter's three states (spec 4.3), read from \<open>has_inited_\<close> and the coarse-fix
  counter: tracking once \<open>has_inited_\<close> is set; before that, pending once a coarse fix
  was counted.
\<close>

datatype init_state = Uninitialized | CoarseFixPending | Tracking

definition arbiter_state :: "'p matching \<Rightarrow> init_state" where
  "arbiter_state st =
     (if has_inited st then Tracking
      else if gnss_cnt st = 0 then Uninitialized
      else CoarseFixPending)"

text \<open>The predictor's \<open>lastPose\<close> and \<open>predictedPose\<close> as an \<open>Update\<close> finds them.\<close>

definition last_pose_on_entry :: "'p collaborators \<Rightarrow> 'p matching \<Rightarrow> 'p" where
  "last_pose_on_entry ext st = fst (snd (statics_on_entry ext st))"

definition predict_pose_on_entry :: "'p collaborators \<Rightarrow> 'p matching \<Rightarrow> 'p" where
  "predict_pose_on_entry ext st = snd (snd (statics_on_entry ext st))"

text \<open>The translation \<open>(P(0,3), P(1,3), P(2,3))\<close> of a pose.\<close>

definition position :: "'p collaborators \<Rightarrow> 'p \<Rightarrow> coord \<times> coord \<times> coord" where
  "position ext P = (pose_coeff ext P 0 3, pose_coeff ext P 1 3, pose_coeff ext P 2 3)"

text \<open>
  Spec 4.1, with the distance as the code computes it: the single-precision difference of
  a coordinate and an edge is farther than the margin from zero; on axis \<open>i\<close> (0 for x,
  1 for y, 2 for z) this holds for both the near and the far edge of the region.
\<close>

definition beyond_margin :: "'p collaborators \<Rightarrow> coord \<Rightarrow> coord \<Rightarrow> bool" where
  "beyond_margin ext a e \<longleftrightarrow> float_gt (fabs (float_sub ext a e)) 50"

fun axis_clear ::
  "'p collaborators \<Rightarrow> edges \<Rightarrow> coord \<times> coord \<times> coord \<Rightarrow> nat \<Rightarrow> bool" where
  "axis_clear ext (xmin, xmax, ymin, ymax, zmin, zmax) (x, y, z) i =
     (if i = 0 then beyond_margin ext x xmin \<and> beyond_margin ext x xmax
      else if i = 1 then beyond_margin ext y ymin \<and> beyond_margin ext y ymax
      else beyond_margin ext z zmin \<and> beyond_margin ext z zmax)"



text \<open>
  The three member clouds are three different allocated objects: the constructor
  allocates them one after the other.
\<close>

definition well_formed :: "'p matching \<Rightarrow> bool" where
  "well_formed st \<longleftrightarrow>
     global_map_ptr st < next_addr st \<and> local_map_ptr st < next_addr st \<and>
     current_scan_ptr st < next_addr st \<and>
     global_map_ptr st \<noteq> local_map_ptr st \<and> global_map_ptr st \<noteq> current_scan_ptr st \<and>
     local_map_ptr st \<noteq> current_scan_ptr st"

text \<open>The order of the arbiter's states: a transition is forward when the rank does not drop.\<close>

fun rank :: "init_state \<Rightarrow> nat" where
  "rank Uninitialized = 0"
| "rank CoarseFixPending = 1"
| "rank Tracking = 2"

subsection \<open>Invariants of the reachable states\<close>

text \<open>
  While \<open>has_inited_\<close> is false the counter of \<open>SetGNSSPose\<close> is at most 4: the call that
  finds it at 4 sets the flag.
\<close>

definition counter_inv :: "'p matching \<Rightarrow> bool" where
  "counter_inv st \<longleftrightarrow> has_inited st \<or> gnss_cnt st \<in> {0, 1, 2, 3, 4}"

text \<open>
  The cloud of \<open>global_map_ptr_\<close> is the loaded map after the local-map filter; the cloud
  of \<open>local_map_ptr_\<close> is what the box filter, at its origin, selects from it; and it is
  the registration's target.
\<close>

definition map_inv :: "'p collaborators \<Rightarrow> 'p matching \<Rightarrow> bool" where
  "map_inv ext st \<longleftrightarrow>
     well_formed st \<and>
     heap st (global_map_ptr st) = local_map_filter ext (loaded_map ext) \<and>
     heap st (local_map_ptr st) =
       box_filter ext (box_origin st) (local_map_filter ext (loaded_map ext)) \<and>
     reg_target st = heap st (local_map_ptr st)"

subsection \<open>A concrete set of collaborators\<close>

text \<open>
  For evaluating the functions on concrete inputs. Poses are pure translations, given by
  their translation vector: the product adds the vectors, the inverse negates, and the
  coefficients are those of the matrix with the identity rotation. The map has a point
  twice and a point far away; the local-map filter merges equal points (as a voxel filter
  merges the points of one voxel), the other two
  filters keep every point; the box is 150 wide on each side of its origin on every axis
  (for the origins used below these sums are exact); the registration accepts its seed;
  the scan-context index proposes the position \<open>(10, 0, 0)\<close> for a scan that has points
  and finds nothing for an empty scan. The subtraction is that of IEEE 754 binary32 with
  rounding to nearest, ties to even.
\<close>

text \<open>
  Rounding a real number to binary32: 24 significant bits, the exponent of the leading
  bit at least \<open>-126\<close> (below that the spacing stays \<open>2 ^ (-149)\<close>), infinity from
  \<open>2 ^ 128\<close> on. \<open>ulp_at e\<close> is the spacing \<open>2 ^ (e - 23)\<close> of the numbers whose leading
  bit is \<open>2 ^ e\<close>.
\<close>

definition round_even :: "real \<Rightarrow> int" where
  "round_even q =
     (let f = \<lfloor>q\<rfloor>
      in if q - of_int f < 1 / 2 then f
         else if 1 / 2 < q - of_int f then f + 1
         else if even f then f else f + 1)"

definition ulp_at :: "int \<Rightarrow> real" where
  "ulp_at e = (if 23 \<le> e then 2 ^ nat (e - 23) else 1 / 2 ^ nat (23 - e))"

definition round32 :: "real \<Rightarrow> coord" where
  "round32 x =
     (if x = 0 then Finite 0
      else
        (let e = max \<lfloor>log 2 \<bar>x\<bar>\<rfloor> (- 126);
             r = of_int (round_even (x / ulp_at e)) * ulp_at e
         in if 2 ^ 128 \<le> \<bar>r\<bar> then (if 0 < x then PosInf else NegInf) else Finite r))"

fun binary32_sub :: "coord \<Rightarrow> coord \<Rightarrow> coord" where
  "binary32_sub (Finite a) (Finite b) = round32 (a - b)"
| "binary32_sub NaN b = NaN"
| "binary32_sub a NaN = NaN"
| "binary32_sub PosInf PosInf = NaN"
| "binary32_sub NegInf NegInf = NaN"
| "binary32_sub PosInf b = PosInf"
| "binary32_sub NegInf b = NegInf"
| "binary32_sub (Finite a) PosInf = NegInf"
| "binary32_sub (Finite a) NegInf = PosInf"

fun between :: "coord \<Rightarrow> coord \<Rightarrow> coord \<Rightarrow> bool" where
  "between (Finite lo) (Finite hi) (Finite v) = (lo \<le> v \<and> v \<le> hi)"
| "between lo hi v = False"

fun in_box :: "edges \<Rightarrow> point \<Rightarrow> bool" where
  "in_box (xmin, xmax, ymin, ymax, zmin, zmax) (x, y, z) =
     (between xmin xmax x \<and> between ymin ymax y \<and> between zmin zmax z)"

fun shift :: "real \<Rightarrow> coord \<Rightarrow> coord" where
  "shift d (Finite r) = Finite (r + d)"
| "shift d c = c"

fun translate :: "real \<times> real \<times> real \<Rightarrow> point \<Rightarrow> point" where
  "translate (a, b, c) (x, y, z) = (shift a x, shift b y, shift c z)"

definition example_edge :: "coord \<times> coord \<times> coord \<Rightarrow> edges" where
  "example_edge =
     (\<lambda>(x, y, z). (shift (- 150) x, shift 150 x, shift (- 150) y, shift 150 y,
                   shift (- 150) z, shift 150 z))"

definition example_collaborators :: "(real \<times> real \<times> real) collaborators" where
  "example_collaborators =
     \<lparr>pose_mult = (\<lambda>(a, b, c) (d, e, f). (a + d, b + e, c + f)),
      pose_inverse = (\<lambda>(a, b, c). (- a, - b, - c)),
      pose_identity = (0, 0, 0),
      pose_coeff = (\<lambda>(a, b, c) i j.
         if j = 3
         then (if i = 0 then Finite a else if i = 1 then Finite b
               else if i = 2 then Finite c else Finite 1)
         else if i = j then Finite 1 else Finite 0),
      float_sub = binary32_sub,
      loaded_map = [(Finite 1, Finite 2, Finite 0), (Finite 1, Finite 2, Finite 0),
                    (Finite 200, Finite 0, Finite 0)],
      global_map_filter = (\<lambda>c. c),
      local_map_filter = remdups,
      frame_filter = (\<lambda>c. c),
      box_edge = example_edge,
      box_filter = (\<lambda>origin c. filter (in_box (example_edge origin)) c),
      scan_match = (\<lambda>target source seed. (map (translate seed) source, seed)),
      detect_loop_closure = (\<lambda>scan. if scan = [] then None else Some (10, 0, 0)),
      transform_cloud = (\<lambda>P c. map (translate P) c)\<rparr>"

text \<open>The same collaborators with a registration that yields \<open>(120, 0, 0)\<close> for every scan.\<close>

definition steady_collaborators :: "(real \<times> real \<times> real) collaborators" where
  "steady_collaborators =
     example_collaborators\<lparr>scan_match := (\<lambda>target source seed. (source, (120, 0, 0)))\<rparr>"

text \<open>The same collaborators with a local-map filter that keeps every point.\<close>

definition unfiltered_collaborators :: "(real \<times> real \<times> real) collaborators" where
  "unfiltered_collaborators = example_collaborators\<lparr>local_map_filter := (\<lambda>c. c)\<rparr>"


text \<open>A scan of two points, one of them with a coordinate that is not a number.\<close>

definition example_scan :: cloud where
  "example_scan = [(Finite 3, Finite 4, Finite 5), (Finite 1, NaN, Finite 0)]"

text \<open>
  Two states for the examples, each with the caller's scan stored at address 3: after one
  coarse fix at \<open>(120, 0, 0)\<close>, and after a second one at \<open>(120, 100, 0)\<close>.
\<close>

definition one_fix_state :: "(real \<times> real \<times> real) matching" where
  "one_fix_state =
     snd (new_cloud example_scan
            (SetGNSSPose example_collaborators (120, 0, 0) (Matching example_collaborators)))"

definition two_fix_state :: "(real \<times> real \<times> real) matching" where
  "two_fix_state =
     snd (new_cloud example_scan
            (SetGNSSPose example_collaborators (120, 100, 0)
               (SetGNSSPose example_collaborators (120, 0, 0)
                  (Matching example_collaborators))))"



section \<open>Effects of the member functions, field by field\<close>

lemma new_cloud_fields:
  "fst (new_cloud c st) = next_addr st"
  "heap (snd (new_cloud c st)) = (heap st)(next_addr st := c)"
  "next_addr (snd (new_cloud c st)) = Suc (next_addr st)"
  "global_map_ptr (snd (new_cloud c st)) = global_map_ptr st"
  "local_map_ptr (snd (new_cloud c st)) = local_map_ptr st"
  "current_scan_ptr (snd (new_cloud c st)) = current_scan_ptr st"
  "has_inited (snd (new_cloud c st)) = has_inited st"
  "gnss_cnt (snd (new_cloud c st)) = gnss_cnt st"
  "predictor (snd (new_cloud c st)) = predictor st"
  "init_pose (snd (new_cloud c st)) = init_pose st"
  "current_gnss_pose (snd (new_cloud c st)) = current_gnss_pose st"
  "reg_target (snd (new_cloud c st)) = reg_target st"
  "box_origin (snd (new_cloud c st)) = box_origin st"
  "info_log (snd (new_cloud c st)) = info_log st"
  "has_new_global_map (snd (new_cloud c st)) = has_new_global_map st"
  "has_new_local_map (snd (new_cloud c st)) = has_new_local_map st"
  by (simp_all add: new_cloud_def)

lemma ResetLocalMap_same:
  "has_inited (ResetLocalMap ext x y z st) = has_inited st"
  "gnss_cnt (ResetLocalMap ext x y z st) = gnss_cnt st"
  "predictor (ResetLocalMap ext x y z st) = predictor st"
  "init_pose (ResetLocalMap ext x y z st) = init_pose st"
  "current_gnss_pose (ResetLocalMap ext x y z st) = current_gnss_pose st"
  "has_new_global_map (ResetLocalMap ext x y z st) = has_new_global_map st"
  "next_addr (ResetLocalMap ext x y z st) = next_addr st"
  "global_map_ptr (ResetLocalMap ext x y z st) = global_map_ptr st"
  "local_map_ptr (ResetLocalMap ext x y z st) = local_map_ptr st"
  "current_scan_ptr (ResetLocalMap ext x y z st) = current_scan_ptr st"
  by (simp_all add: ResetLocalMap_def Let_def)

lemma ResetLocalMap_new:
  "box_origin (ResetLocalMap ext x y z st) = (x, y, z)"
  "has_new_local_map (ResetLocalMap ext x y z st) = True"
  "info_log (ResetLocalMap ext x y z st) =
     info_log st @ [LogNewLocalMap (box_edge ext (x, y, z))]"
  "heap (ResetLocalMap ext x y z st) =
     (heap st)(local_map_ptr st := box_filter ext (x, y, z) (heap st (global_map_ptr st)))"
  "reg_target (ResetLocalMap ext x y z st) =
     box_filter ext (x, y, z) (heap st (global_map_ptr st))"
  by (simp_all add: ResetLocalMap_def Let_def GetEdge_def)

lemma SetInitPose_same:
  "has_inited (SetInitPose ext p st) = has_inited st"
  "gnss_cnt (SetInitPose ext p st) = gnss_cnt st"
  "predictor (SetInitPose ext p st) = predictor st"
  "current_gnss_pose (SetInitPose ext p st) = current_gnss_pose st"
  "has_new_global_map (SetInitPose ext p st) = has_new_global_map st"
  "next_addr (SetInitPose ext p st) = next_addr st"
  "global_map_ptr (SetInitPose ext p st) = global_map_ptr st"
  "local_map_ptr (SetInitPose ext p st) = local_map_ptr st"
  "current_scan_ptr (SetInitPose ext p st) = current_scan_ptr st"
  by (simp_all add: SetInitPose_def ResetLocalMap_same)

lemma SetInitPose_new:
  "init_pose (SetInitPose ext p st) = p"
  "box_origin (SetInitPose ext p st) = position ext p"
  "has_new_local_map (SetInitPose ext p st) = True"
  "info_log (SetInitPose ext p st) =
     info_log st @ [LogNewLocalMap (box_edge ext (position ext p))]"
  "heap (SetInitPose ext p st) =
     (heap st)(local_map_ptr st :=
        box_filter ext (position ext p) (heap st (global_map_ptr st)))"
  "reg_target (SetInitPose ext p st) =
     box_filter ext (position ext p) (heap st (global_map_ptr st))"
  by (simp_all add: SetInitPose_def ResetLocalMap_same ResetLocalMap_new position_def)

lemma SetGNSSPose_has_inited:
  "has_inited (SetGNSSPose ext g st) =
     (has_inited st \<or> (gnss_cnt st \<noteq> 0 \<and> 3 <s gnss_cnt st))"
  by (simp add: SetGNSSPose_def Let_def SetInitPose_same)

lemma SetGNSSPose_fields:
  "gnss_cnt (SetGNSSPose ext g st) = gnss_cnt st + 1"
  "current_gnss_pose (SetGNSSPose ext g st) = g"
  "predictor (SetGNSSPose ext g st) = predictor st"
  "next_addr (SetGNSSPose ext g st) = next_addr st"
  "global_map_ptr (SetGNSSPose ext g st) = global_map_ptr st"
  "local_map_ptr (SetGNSSPose ext g st) = local_map_ptr st"
  "current_scan_ptr (SetGNSSPose ext g st) = current_scan_ptr st"
  "has_new_global_map (SetGNSSPose ext g st) = has_new_global_map st"
  "init_pose (SetGNSSPose ext g st) = (if gnss_cnt st = 0 then g else init_pose st)"
  "box_origin (SetGNSSPose ext g st) =
     (if gnss_cnt st = 0 then position ext g else box_origin st)"
  "reg_target (SetGNSSPose ext g st) =
     (if gnss_cnt st = 0 then box_filter ext (position ext g) (heap st (global_map_ptr st))
      else reg_target st)"
  by (simp_all add: SetGNSSPose_def Let_def SetInitPose_same SetInitPose_new)

lemma SetGNSSPose_heap:
  "heap (SetGNSSPose ext g st) =
     (if gnss_cnt st = 0
      then (heap st)(local_map_ptr st :=
              box_filter ext (position ext g) (heap st (global_map_ptr st)))
      else heap st)"
  by (simp add: SetGNSSPose_def Let_def SetInitPose_new)

lemma empty_matching_fields:
  "has_inited (empty_matching ext) = False"
  "gnss_cnt (empty_matching ext) = 0"
  "predictor (empty_matching ext) = None"
  "init_pose (empty_matching ext) = pose_identity ext"
  "current_gnss_pose (empty_matching ext) = pose_identity ext"
  "next_addr (empty_matching ext) = 0"
  by (simp_all add: empty_matching_def)

lemma InitGlobalMap_fields:
  "has_inited (InitGlobalMap ext st) = has_inited st"
  "gnss_cnt (InitGlobalMap ext st) = gnss_cnt st"
  "predictor (InitGlobalMap ext st) = predictor st"
  "init_pose (InitGlobalMap ext st) = init_pose st"
  "current_gnss_pose (InitGlobalMap ext st) = current_gnss_pose st"
  "next_addr (InitGlobalMap ext st) = next_addr st"
  "global_map_ptr (InitGlobalMap ext st) = global_map_ptr st"
  "local_map_ptr (InitGlobalMap ext st) = local_map_ptr st"
  "current_scan_ptr (InitGlobalMap ext st) = current_scan_ptr st"
  "has_new_global_map (InitGlobalMap ext st) = True"
  "heap (InitGlobalMap ext st) =
     (heap st)(global_map_ptr st := local_map_filter ext (loaded_map ext))"
  by (simp_all add: InitGlobalMap_def Let_def)

lemma Matching_fields:
  "has_inited (Matching ext) = False"
  "gnss_cnt (Matching ext) = 0"
  "predictor (Matching ext) = None"
  "init_pose (Matching ext) = pose_identity ext"
  "current_gnss_pose (Matching ext) = pose_identity ext"
  "next_addr (Matching ext) = 3"
  "global_map_ptr (Matching ext) = 0"
  "local_map_ptr (Matching ext) = 1"
  "current_scan_ptr (Matching ext) = 2"
  "box_origin (Matching ext) = (Finite 0, Finite 0, Finite 0)"
  "has_new_global_map (Matching ext) = True"
  "has_new_local_map (Matching ext) = True"
  by (simp_all add: Matching_def Let_def split_def new_cloud_fields ResetLocalMap_same
      ResetLocalMap_new InitGlobalMap_fields empty_matching_fields)

lemma Matching_clouds:
  "heap (Matching ext) 0 = local_map_filter ext (loaded_map ext)"
  "heap (Matching ext) (Suc 0) =
     box_filter ext (Finite 0, Finite 0, Finite 0) (local_map_filter ext (loaded_map ext))"
  "reg_target (Matching ext) =
     box_filter ext (Finite 0, Finite 0, Finite 0) (local_map_filter ext (loaded_map ext))"
  by (simp_all add: Matching_def Let_def split_def new_cloud_fields ResetLocalMap_same
      ResetLocalMap_new InitGlobalMap_fields empty_matching_fields)

lemma run_Nil: "run ext [] st = st"
  by (simp add: run_def)

lemma run_Cons: "run ext (c # cs) st = run ext cs (exec ext c st)"
  by (simp add: run_def)

lemma run_snoc: "run ext (cs @ [c]) st = exec ext c (run ext cs st)"
  by (simp add: run_def)

lemma run_append: "run ext (cs @ cs') st = run ext cs' (run ext cs st)"
  by (simp add: run_def)

lemma exec_stored:
  "exec ext (SubmitPlaceRecognition c) st =
     snd (SetScanContextPose ext (next_addr st) (snd (new_cloud c st)))"
  "exec ext (UpdateScan c) st = snd (Update ext (next_addr st) (snd (new_cloud c st)))"
  "exec ext GlobalMapForDisplay st = GetGlobalMap ext (next_addr st) (snd (new_cloud [] st))"
  by (simp_all add: split_def Let_def new_cloud_fields)

section \<open>Coarse fixes and the tracking flag\<close>

lemma small_counts:
  assumes "n < 5"
  shows "((of_nat n :: 32 word) \<noteq> 0 \<and> 3 <s (of_nat n :: 32 word)) = (n = 4)"
proof -
  from assms consider "n = 0" | "n = 1" | "n = 2" | "n = 3" | "n = 4" by linarith
  then show ?thesis by cases (simp_all add: word_sless_alt)
qed

text \<open>
  C1 (as the code has it). In a run of coarse fixes only, started at the constructed
  state, \<open>HasInited\<close> answers true exactly when at least five \<open>SetGNSSPose\<close> calls were
  made: the counter is compared with 3 before it is incremented, so the fifth call is
  the first that finds it above 3.
\<close>

theorem coarse_fixes_reach_tracking:
  "HasInited (run ext (map SubmitCoarseFix gs) (Matching ext)) \<longleftrightarrow> 5 \<le> length gs"
proof -
  have "gnss_cnt (run ext (map SubmitCoarseFix gs) (Matching ext)) = of_nat (length gs) \<and>
      has_inited (run ext (map SubmitCoarseFix gs) (Matching ext)) = (5 \<le> length gs)"
  proof (induction gs rule: rev_induct)
    case Nil
    show ?case by (simp add: run_Nil Matching_fields)
  next
    case (snoc g gs)
    show ?case
    proof (cases "length gs < 5")
      case True
      with snoc show ?thesis
        using small_counts [of "length gs"]
        by (simp add: run_snoc SetGNSSPose_has_inited SetGNSSPose_fields) linarith
    next
      case False
      with snoc show ?thesis
        by (simp add: run_snoc SetGNSSPose_has_inited SetGNSSPose_fields)
    qed
  qed
  then show ?thesis by (simp add: HasInited_def)
qed

theorem coarse_fixes_reach_tracking_witness:
  "HasInited (run example_collaborators
      (map SubmitCoarseFix [(0, 0, 0), (1, 0, 0), (2, 0, 0), (3, 0, 0), (4, 0, 0)])
      (Matching example_collaborators)) \<and>
   \<not> HasInited (run example_collaborators
      (map SubmitCoarseFix [(0, 0, 0), (1, 0, 0), (2, 0, 0)])
      (Matching example_collaborators))"
  using coarse_fixes_reach_tracking [of example_collaborators
          "[(0, 0, 0), (1, 0, 0), (2, 0, 0), (3, 0, 0), (4, 0, 0)]"]
        coarse_fixes_reach_tracking [of example_collaborators
          "[(0, 0, 0), (1, 0, 0), (2, 0, 0)]"]
  by simp

text \<open>
  C1 as stated fails: after the fourth coarse fix \<open>HasInited\<close> still answers false.
\<close>

theorem four_coarse_fixes_not_tracking:
  "\<not> HasInited (run example_collaborators
      (map SubmitCoarseFix [(0, 0, 0), (1, 0, 0), (2, 0, 0), (3, 0, 0)])
      (Matching example_collaborators))"
  by (simp add: HasInited_def run_def SetGNSSPose_has_inited SetGNSSPose_fields
      Matching_fields word_sless_alt)

section \<open>The per-scan update, field by field\<close>

lemma scan_to_map_same:
  "has_inited (snd (scan_to_map ext scan st)) = has_inited st"
  "gnss_cnt (snd (scan_to_map ext scan st)) = gnss_cnt st"
  "init_pose (snd (scan_to_map ext scan st)) = init_pose st"
  "current_gnss_pose (snd (scan_to_map ext scan st)) = current_gnss_pose st"
  "reg_target (snd (scan_to_map ext scan st)) = reg_target st"
  "box_origin (snd (scan_to_map ext scan st)) = box_origin st"
  "info_log (snd (scan_to_map ext scan st)) = info_log st"
  "global_map_ptr (snd (scan_to_map ext scan st)) = global_map_ptr st"
  "local_map_ptr (snd (scan_to_map ext scan st)) = local_map_ptr st"
  "current_scan_ptr (snd (scan_to_map ext scan st)) = current_scan_ptr st"
  "has_new_global_map (snd (scan_to_map ext scan st)) = has_new_global_map st"
  "has_new_local_map (snd (scan_to_map ext scan st)) = has_new_local_map st"
  "next_addr (snd (scan_to_map ext scan st)) = Suc (Suc (next_addr st))"
  by (simp_all add: scan_to_map_def Let_def split_def new_cloud_def)

lemma scan_to_map_predictor:
  "predictor (snd (scan_to_map ext scan st)) =
     Some (pose_mult ext (pose_inverse ext (last_pose_on_entry ext st))
             (fst (scan_to_map ext scan st)),
           fst (scan_to_map ext scan st),
           pose_mult ext (fst (scan_to_map ext scan st))
             (pose_mult ext (pose_inverse ext (last_pose_on_entry ext st))
                (fst (scan_to_map ext scan st))))"
  by (simp add: scan_to_map_def Let_def split_def new_cloud_def last_pose_on_entry_def)

lemma scan_to_map_pose:
  assumes "scan < next_addr st"
  shows "fst (scan_to_map ext scan st) =
     snd (scan_match ext (reg_target st)
            (frame_filter ext (removeNaNFromPointCloud (heap st scan)))
            (if has_inited st then predict_pose_on_entry ext st else current_gnss_pose st))"
  using assms
  by (simp add: scan_to_map_def Let_def split_def new_cloud_def predict_pose_on_entry_def)

lemma scan_to_map_heap:
  assumes "scan < next_addr st"
  shows "heap (snd (scan_to_map ext scan st)) =
     (heap st)
       (scan := removeNaNFromPointCloud (heap st scan),
        next_addr st := frame_filter ext (removeNaNFromPointCloud (heap st scan)),
        Suc (next_addr st) :=
          fst (scan_match ext (reg_target st)
                 (frame_filter ext (removeNaNFromPointCloud (heap st scan)))
                 (if has_inited st then predict_pose_on_entry ext st
                  else current_gnss_pose st)),
        current_scan_ptr st :=
          transform_cloud ext (fst (scan_to_map ext scan st))
            (removeNaNFromPointCloud (heap st scan)))"
  using assms
  by (simp add: scan_to_map_def Let_def split_def new_cloud_def predict_pose_on_entry_def)

declare check_axes.simps [simp del]

lemma axis_clear_code:
  assumes "i < 3"
  shows "axis_clear ext edge (position ext P) i \<longleftrightarrow>
     float_gt (fabs (float_sub ext (pose_coeff ext P i 3) (edge_at edge (2 * i)))) 50 \<and>
     float_gt (fabs (float_sub ext (pose_coeff ext P i 3) (edge_at edge (2 * i + 1)))) 50"
proof -
  obtain e0 e1 e2 e3 e4 e5 where e: "edge = (e0, e1, e2, e3, e4, e5)"
    by (cases edge) auto
  from assms consider "i = 0" | "i = 1" | "i = 2" by linarith
  then show ?thesis by cases (simp_all add: e position_def beyond_margin_def)
qed

lemma check_axes_step:
  assumes "i < 3"
  shows "check_axes ext edge P i st =
     (if axis_clear ext edge (position ext P) i then check_axes ext edge P (i + 1) st
      else (i, ResetLocalMap ext (pose_coeff ext P 0 3) (pose_coeff ext P 1 3)
                 (pose_coeff ext P 2 3) st))"
  using assms by (subst check_axes.simps) (simp add: axis_clear_code)

lemma check_axes_end: "check_axes ext edge P 3 st = (3, st)"
  by (subst check_axes.simps) simp

lemma check_axes_0:
  "check_axes ext edge P 0 st =
     (if axis_clear ext edge (position ext P) 0 then check_axes ext edge P 1 st
      else (0, ResetLocalMap ext (pose_coeff ext P 0 3) (pose_coeff ext P 1 3)
                 (pose_coeff ext P 2 3) st))"
proof -
  have "check_axes ext edge P 0 st =
     (if axis_clear ext edge (position ext P) 0 then check_axes ext edge P (0 + 1) st
      else (0, ResetLocalMap ext (pose_coeff ext P 0 3) (pose_coeff ext P 1 3)
                 (pose_coeff ext P 2 3) st))"
    by (rule check_axes_step) simp
  then show ?thesis by (simp only: add_0)
qed

lemma check_axes_1:
  "check_axes ext edge P 1 st =
     (if axis_clear ext edge (position ext P) 1 then check_axes ext edge P 2 st
      else (1, ResetLocalMap ext (pose_coeff ext P 0 3) (pose_coeff ext P 1 3)
                 (pose_coeff ext P 2 3) st))"
proof -
  have "check_axes ext edge P 1 st =
     (if axis_clear ext edge (position ext P) 1 then check_axes ext edge P (1 + 1) st
      else (1, ResetLocalMap ext (pose_coeff ext P 0 3) (pose_coeff ext P 1 3)
                 (pose_coeff ext P 2 3) st))"
    by (rule check_axes_step) simp
  then show ?thesis by (simp only: one_add_one)
qed

lemma check_axes_2:
  "check_axes ext edge P 2 st =
     (if axis_clear ext edge (position ext P) 2 then (3, st)
      else (2, ResetLocalMap ext (pose_coeff ext P 0 3) (pose_coeff ext P 1 3)
                 (pose_coeff ext P 2 3) st))"
proof -
  have three: "(2::nat) + 1 = 3" by simp
  have "check_axes ext edge P 2 st =
     (if axis_clear ext edge (position ext P) 2 then check_axes ext edge P (2 + 1) st
      else (2, ResetLocalMap ext (pose_coeff ext P 0 3) (pose_coeff ext P 1 3)
                 (pose_coeff ext P 2 3) st))"
    by (rule check_axes_step) simp
  then show ?thesis by (simp only: three check_axes_end)
qed

lemma check_axes_clear:
  assumes "\<forall>i<3. axis_clear ext edge (position ext P) i"
  shows "check_axes ext edge P 0 st = (3, st)"
proof -
  from assms have "axis_clear ext edge (position ext P) 0" "axis_clear ext edge (position ext P) 1"
    "axis_clear ext edge (position ext P) 2" by simp_all
  then show ?thesis
    by (simp only: check_axes_0 check_axes_1 check_axes_2 if_True)
qed

lemma check_axes_trip:
  assumes "k < 3" and "\<forall>i<k. axis_clear ext edge (position ext P) i"
    and "\<not> axis_clear ext edge (position ext P) k"
  shows "check_axes ext edge P 0 st =
     (k, ResetLocalMap ext (pose_coeff ext P 0 3) (pose_coeff ext P 1 3)
           (pose_coeff ext P 2 3) st)"
proof -
  from assms(1) consider "k = 0" | "k = 1" | "k = 2" by linarith
  then show ?thesis
  proof cases
    case 1
    with assms(3) show ?thesis by (simp only: check_axes_0 if_False)
  next
    case 2
    with assms(2) have "axis_clear ext edge (position ext P) 0" by simp
    with 2 assms(3) show ?thesis
      by (simp only: check_axes_0 check_axes_1 if_True if_False)
  next
    case 3
    with assms(2) have "axis_clear ext edge (position ext P) 0"
      "axis_clear ext edge (position ext P) 1" by simp_all
    with 3 assms(3) show ?thesis
      by (simp only: check_axes_0 check_axes_1 check_axes_2 if_True if_False)
  qed
qed

lemma first_unclear_axis:
  assumes "\<not> (\<forall>i<3. axis_clear ext edge pos i)"
  shows "\<exists>k<3. (\<forall>i<k. axis_clear ext edge pos i) \<and> \<not> axis_clear ext edge pos k"
proof -
  from assms obtain j :: nat where j: "j < 3 \<and> \<not> axis_clear ext edge pos j" by auto
  define k where "k = (LEAST j. j < 3 \<and> \<not> axis_clear ext edge pos j)"
  have k: "k < 3 \<and> \<not> axis_clear ext edge pos k"
    unfolding k_def using j by (rule LeastI)
  have "\<forall>i<k. axis_clear ext edge pos i"
  proof (intro allI impI)
    fix i assume "i < k"
    then have "\<not> (i < 3 \<and> \<not> axis_clear ext edge pos i)"
      unfolding k_def by (rule not_less_Least)
    with \<open>i < k\<close> k show "axis_clear ext edge pos i" by simp
  qed
  with k show ?thesis by blast
qed

lemma check_axes_cases:
  "snd (check_axes ext edge P 0 st) = st \<or>
   snd (check_axes ext edge P 0 st) =
     ResetLocalMap ext (pose_coeff ext P 0 3) (pose_coeff ext P 1 3) (pose_coeff ext P 2 3) st"
proof (cases "\<forall>i<3. axis_clear ext edge (position ext P) i")
  case True
  then have "check_axes ext edge P 0 st = (3, st)" by (rule check_axes_clear)
  then show ?thesis by simp
next
  case False
  then obtain k where "k < 3" "\<forall>i<k. axis_clear ext edge (position ext P) i"
    "\<not> axis_clear ext edge (position ext P) k"
    using first_unclear_axis by blast
  then have "check_axes ext edge P 0 st =
     (k, ResetLocalMap ext (pose_coeff ext P 0 3) (pose_coeff ext P 1 3)
           (pose_coeff ext P 2 3) st)"
    by (rule check_axes_trip)
  then show ?thesis by simp
qed

lemma Update_fst: "fst (Update ext scan st) = fst (scan_to_map ext scan st)"
  by (simp add: Update_def Let_def split_def)

lemma Update_snd:
  "snd (Update ext scan st) =
     snd (check_axes ext (box_edge ext (box_origin st)) (fst (scan_to_map ext scan st)) 0
            (snd (scan_to_map ext scan st)))"
  by (simp add: Update_def Let_def split_def GetEdge_def scan_to_map_same)

lemma Update_cases:
  "snd (Update ext scan st) = snd (scan_to_map ext scan st) \<or>
   snd (Update ext scan st) =
     ResetLocalMap ext (pose_coeff ext (fst (Update ext scan st)) 0 3)
       (pose_coeff ext (fst (Update ext scan st)) 1 3)
       (pose_coeff ext (fst (Update ext scan st)) 2 3) (snd (scan_to_map ext scan st))"
  using check_axes_cases [of ext "box_edge ext (box_origin st)" "fst (scan_to_map ext scan st)"
      "snd (scan_to_map ext scan st)"]
  by (simp add: Update_snd Update_fst)

lemma Update_same:
  "has_inited (snd (Update ext scan st)) = has_inited st"
  "gnss_cnt (snd (Update ext scan st)) = gnss_cnt st"
  "init_pose (snd (Update ext scan st)) = init_pose st"
  "current_gnss_pose (snd (Update ext scan st)) = current_gnss_pose st"
  "global_map_ptr (snd (Update ext scan st)) = global_map_ptr st"
  "local_map_ptr (snd (Update ext scan st)) = local_map_ptr st"
  "current_scan_ptr (snd (Update ext scan st)) = current_scan_ptr st"
  "has_new_global_map (snd (Update ext scan st)) = has_new_global_map st"
  "next_addr (snd (Update ext scan st)) = Suc (Suc (next_addr st))"
  using Update_cases [of ext scan st]
  by (auto simp add: ResetLocalMap_same scan_to_map_same)

lemma Update_predictor:
  "predictor (snd (Update ext scan st)) =
     Some (pose_mult ext (pose_inverse ext (last_pose_on_entry ext st))
             (fst (Update ext scan st)),
           fst (Update ext scan st),
           pose_mult ext (fst (Update ext scan st))
             (pose_mult ext (pose_inverse ext (last_pose_on_entry ext st))
                (fst (Update ext scan st))))"
  using Update_cases [of ext scan st]
  by (auto simp add: ResetLocalMap_same scan_to_map_predictor Update_fst)

section \<open>The refresh policy\<close>





text \<open>The collaborators and the states of the examples, evaluated.\<close>

lemma example_ops:
  "pose_coeff example_collaborators (a, b, c) 0 3 = Finite a"
  "pose_coeff example_collaborators (a, b, c) 1 3 = Finite b"
  "pose_coeff example_collaborators (a, b, c) 2 3 = Finite c"
  "position example_collaborators (a, b, c) = (Finite a, Finite b, Finite c)"
  "pose_identity example_collaborators = (0, 0, 0)"
  "pose_mult example_collaborators (a, b, c) (d, e, f) = (a + d, b + e, c + f)"
  "pose_inverse example_collaborators (a, b, c) = (- a, - b, - c)"
  "box_edge example_collaborators (Finite x, Finite y, Finite z) =
     (Finite (x - 150), Finite (x + 150), Finite (y - 150), Finite (y + 150),
      Finite (z - 150), Finite (z + 150))"
  "snd (scan_match example_collaborators target source seed) = seed"
  "frame_filter example_collaborators cl = cl"
  "global_map_filter example_collaborators cl = cl"
  "float_sub example_collaborators = binary32_sub"
  by (simp_all add: example_collaborators_def position_def example_edge_def)

lemma one_fix_state_fields:
  "next_addr one_fix_state = 4"
  "has_inited one_fix_state = False"
  "current_gnss_pose one_fix_state = (120, 0, 0)"
  "box_origin one_fix_state = (Finite 120, Finite 0, Finite 0)"
  "init_pose one_fix_state = (120, 0, 0)"
  "predictor one_fix_state = None"
  "gnss_cnt one_fix_state = 1"
  by (simp_all add: one_fix_state_def new_cloud_fields SetGNSSPose_fields
      SetGNSSPose_has_inited Matching_fields example_ops)

lemma two_fix_state_fields:
  "next_addr two_fix_state = 4"
  "has_inited two_fix_state = False"
  "current_gnss_pose two_fix_state = (120, 100, 0)"
  "box_origin two_fix_state = (Finite 120, Finite 0, Finite 0)"
  "init_pose two_fix_state = (120, 0, 0)"
  "predictor two_fix_state = None"
  "gnss_cnt two_fix_state = 2"
  by (simp_all add: two_fix_state_def new_cloud_fields SetGNSSPose_fields
      SetGNSSPose_has_inited Matching_fields example_ops word_sless_alt)







lemma one_fix_pose: "fst (scan_to_map example_collaborators 3 one_fix_state) = (120, 0, 0)"
  by (simp add: scan_to_map_pose one_fix_state_fields example_ops)







section \<open>The pose predictor\<close>

text \<open>
  C5. After an \<open>Update\<close> with refined pose \<open>P\<close> the statics hold
  \<open>step = inverse(lastPose) * P\<close>, \<open>lastPose' = P\<close> and
  \<open>predictedPose' = P * (inverse(lastPose) * P)\<close>, where \<open>lastPose\<close> is the value the
  call found (on the first call, the value its initialiser gives it).
\<close>

theorem predictor_extrapolates:
  "predictor (snd (Update ext scan st)) =
     Some (pose_mult ext (pose_inverse ext (last_pose_on_entry ext st))
             (fst (Update ext scan st)),
           fst (Update ext scan st),
           pose_mult ext (fst (Update ext scan st))
             (pose_mult ext (pose_inverse ext (last_pose_on_entry ext st))
                (fst (Update ext scan st)))) \<and>
   last_pose_on_entry ext (snd (Update ext scan st)) = fst (Update ext scan st) \<and>
   predict_pose_on_entry ext (snd (Update ext scan st)) =
     pose_mult ext (fst (Update ext scan st))
       (pose_mult ext (pose_inverse ext (last_pose_on_entry ext st))
          (fst (Update ext scan st)))"
  by (simp add: Update_predictor last_pose_on_entry_def predict_pose_on_entry_def
      statics_on_entry_def)

lemma two_fix_update_pose: "fst (Update example_collaborators 3 two_fix_state) = (120, 100, 0)"
  by (simp add: Update_fst scan_to_map_pose two_fix_state_fields example_ops)

lemma two_fix_last_pose:
  "last_pose_on_entry example_collaborators two_fix_state = (120, 0, 0)"
  by (simp add: last_pose_on_entry_def statics_on_entry_def two_fix_state_fields)

theorem predictor_extrapolates_witness:
  "predictor (snd (Update example_collaborators 3 two_fix_state)) =
     Some ((0, 100, 0), (120, 100, 0), (120, 200, 0))"
  using predictor_extrapolates [of example_collaborators 3 two_fix_state]
  by (simp add: two_fix_update_pose two_fix_last_pose example_ops)

section \<open>Calls and runs\<close>

lemma SetScanContextPose_fields:
  "has_inited (snd (SetScanContextPose ext a st)) =
     (has_inited st \<or> detect_loop_closure ext (heap st a) \<noteq> None)"
  "gnss_cnt (snd (SetScanContextPose ext a st)) = gnss_cnt st"
  "current_gnss_pose (snd (SetScanContextPose ext a st)) = current_gnss_pose st"
  "predictor (snd (SetScanContextPose ext a st)) = predictor st"
  "next_addr (snd (SetScanContextPose ext a st)) = next_addr st"
  "global_map_ptr (snd (SetScanContextPose ext a st)) = global_map_ptr st"
  "local_map_ptr (snd (SetScanContextPose ext a st)) = local_map_ptr st"
  "current_scan_ptr (snd (SetScanContextPose ext a st)) = current_scan_ptr st"
  by (simp_all add: SetScanContextPose_def Let_def SetInitPose_same split: option.split)

lemma GetGlobalMap_fields:
  "has_inited (GetGlobalMap ext out st) = has_inited st"
  "gnss_cnt (GetGlobalMap ext out st) = gnss_cnt st"
  "current_gnss_pose (GetGlobalMap ext out st) = current_gnss_pose st"
  "predictor (GetGlobalMap ext out st) = predictor st"
  "next_addr (GetGlobalMap ext out st) = next_addr st"
  "global_map_ptr (GetGlobalMap ext out st) = global_map_ptr st"
  "local_map_ptr (GetGlobalMap ext out st) = local_map_ptr st"
  "current_scan_ptr (GetGlobalMap ext out st) = current_scan_ptr st"
  "box_origin (GetGlobalMap ext out st) = box_origin st"
  "reg_target (GetGlobalMap ext out st) = reg_target st"
  "has_new_global_map (GetGlobalMap ext out st) = False"
  "has_new_local_map (GetGlobalMap ext out st) = has_new_local_map st"
  "heap (GetGlobalMap ext out st) =
     (heap st)(out := global_map_filter ext (heap st (global_map_ptr st)))"
  by (simp_all add: GetGlobalMap_def Let_def)

lemma exec_has_inited:
  "has_inited (exec ext c st) =
     (case c of
        SubmitCoarseFix g \<Rightarrow> has_inited st \<or> (gnss_cnt st \<noteq> 0 \<and> 3 <s gnss_cnt st)
      | SubmitPlaceRecognition cl \<Rightarrow> has_inited st \<or> detect_loop_closure ext cl \<noteq> None
      | MarkInitialized \<Rightarrow> True
      | _ \<Rightarrow> has_inited st)"
  by (cases c)
    (simp_all add: SetGNSSPose_has_inited SetScanContextPose_fields SetInited_def
      Update_same GetGlobalMap_fields GetLocalMap_def new_cloud_def split_def)

lemma exec_gnss_cnt:
  "gnss_cnt (exec ext c st) =
     (case c of SubmitCoarseFix g \<Rightarrow> gnss_cnt st + 1 | _ \<Rightarrow> gnss_cnt st)"
  by (cases c)
    (simp_all add: SetGNSSPose_fields SetScanContextPose_fields SetInited_def
      Update_same GetGlobalMap_fields GetLocalMap_def new_cloud_def split_def)



lemma counter_inv_Matching: "counter_inv (Matching ext)"
  by (simp add: counter_inv_def Matching_fields)

lemma counter_inv_exec:
  assumes "counter_inv st"
  shows "counter_inv (exec ext c st)"
proof (cases "has_inited st")
  case True
  then show ?thesis
    by (cases c) (simp_all add: counter_inv_def exec_has_inited del: exec.simps)
next
  case False
  with assms have "gnss_cnt st \<in> {0, 1, 2, 3, 4}" by (simp add: counter_inv_def)
  then show ?thesis
    by (cases c)
      (auto simp add: counter_inv_def exec_has_inited exec_gnss_cnt word_sless_alt
        simp del: exec.simps)
qed

lemma counter_inv_run:
  assumes "counter_inv st"
  shows "counter_inv (run ext cs st)"
  using assms
proof (induction cs arbitrary: st)
  case Nil
  then show ?case by (simp add: run_Nil)
next
  case (Cons c cs)
  then show ?case by (simp add: run_Cons counter_inv_exec)
qed

lemma rank_exec:
  assumes "counter_inv st"
  shows "rank (arbiter_state st) \<le> rank (arbiter_state (exec ext c st))"
proof (cases "has_inited st")
  case True
  then have "has_inited (exec ext c st)"
    by (cases c) (simp_all add: exec_has_inited del: exec.simps)
  with True show ?thesis by (simp add: arbiter_state_def)
next
  case False
  with assms have "gnss_cnt st \<in> {0, 1, 2, 3, 4}" by (simp add: counter_inv_def)
  then show ?thesis
    by (cases c)
      (auto simp add: arbiter_state_def exec_has_inited exec_gnss_cnt simp del: exec.simps)
qed

lemma rank_run:
  assumes "counter_inv st"
  shows "rank (arbiter_state st) \<le> rank (arbiter_state (run ext cs st))"
  using assms
proof (induction cs arbitrary: st)
  case Nil
  then show ?case by (simp add: run_Nil)
next
  case (Cons c cs)
  have "rank (arbiter_state st) \<le> rank (arbiter_state (exec ext c st))"
    using Cons.prems by (rule rank_exec)
  also have "\<dots> \<le> rank (arbiter_state (run ext cs (exec ext c st)))"
    using Cons.prems by (intro Cons.IH counter_inv_exec)
  finally show ?case by (simp add: run_Cons)
qed

lemma rank_Tracking: "2 \<le> rank s \<longleftrightarrow> s = Tracking"
  by (cases s) simp_all

lemma rank_Uninitialized: "rank s = 0 \<longleftrightarrow> s = Uninitialized"
  by (cases s) simp_all

lemma arbiter_Tracking: "arbiter_state st = Tracking \<longleftrightarrow> has_inited st"
  by (simp add: arbiter_state_def)

text \<open>
  C7. From the constructed state, whatever calls \<open>cs\<close> led to a state and whatever calls
  \<open>cs'\<close> follow (coarse fixes, place recognitions, manual marking, updates, and the
  readers), the arbiter's rank never drops: once \<open>HasInited\<close> answers true it answers
  true after every further call, and a state that is pending is never followed by an
  uninitialised one.
\<close>

theorem arbiter_monotonic:
  "rank (arbiter_state (run ext cs (Matching ext))) \<le>
     rank (arbiter_state (run ext (cs @ cs') (Matching ext))) \<and>
   (HasInited (run ext cs (Matching ext)) \<longrightarrow>
      HasInited (run ext (cs @ cs') (Matching ext))) \<and>
   (arbiter_state (run ext cs (Matching ext)) = CoarseFixPending \<longrightarrow>
      arbiter_state (run ext (cs @ cs') (Matching ext)) \<noteq> Uninitialized)"
proof -
  let ?s = "run ext cs (Matching ext)"
  let ?t = "run ext (cs @ cs') (Matching ext)"
  have "counter_inv ?s" by (intro counter_inv_run counter_inv_Matching)
  then have mono: "rank (arbiter_state ?s) \<le> rank (arbiter_state ?t)"
    unfolding run_append by (rule rank_run)
  have "HasInited ?t" if "HasInited ?s"
  proof -
    from that have "arbiter_state ?s = Tracking"
      by (simp add: HasInited_def arbiter_Tracking)
    with mono have "2 \<le> rank (arbiter_state ?t)" by simp
    then show ?thesis by (simp add: rank_Tracking arbiter_Tracking HasInited_def)
  qed
  moreover have "arbiter_state ?t \<noteq> Uninitialized" if "arbiter_state ?s = CoarseFixPending"
  proof
    assume "arbiter_state ?t = Uninitialized"
    with mono that show False by simp
  qed
  ultimately show ?thesis using mono by blast
qed

theorem arbiter_monotonic_witness:
  "HasInited (run example_collaborators [MarkInitialized] (Matching example_collaborators)) \<and>
   HasInited (run example_collaborators
     ([MarkInitialized] @ [SubmitCoarseFix (1, 0, 0), UpdateScan example_scan,
        SubmitPlaceRecognition []])
     (Matching example_collaborators)) \<and>
   arbiter_state (run example_collaborators [SubmitCoarseFix (1, 0, 0)]
     (Matching example_collaborators)) = CoarseFixPending \<and>
   arbiter_state (run example_collaborators
     ([SubmitCoarseFix (1, 0, 0)] @ [UpdateScan example_scan, SubmitPlaceRecognition []])
     (Matching example_collaborators)) \<noteq> Uninitialized"
proof -
  let ?ex = example_collaborators
  have a: "HasInited (run ?ex [MarkInitialized] (Matching ?ex))"
    by (simp add: HasInited_def run_Cons run_Nil SetInited_def)
  have b: "arbiter_state (run ?ex [SubmitCoarseFix (1, 0, 0)] (Matching ?ex)) = CoarseFixPending"
    by (simp add: arbiter_state_def run_Cons run_Nil SetGNSSPose_has_inited
        SetGNSSPose_fields Matching_fields)
  from a b
    arbiter_monotonic [of ?ex "[MarkInitialized]"
      "[SubmitCoarseFix (1, 0, 0), UpdateScan example_scan, SubmitPlaceRecognition []]"]
    arbiter_monotonic [of ?ex "[SubmitCoarseFix (1, 0, 0)]"
      "[UpdateScan example_scan, SubmitPlaceRecognition []]"]
  show ?thesis by blast
qed

section \<open>The registration seed\<close>

lemma statics_first:
  assumes "predictor st = None"
  shows "last_pose_on_entry ext st = init_pose st" "predict_pose_on_entry ext st = init_pose st"
  using assms
  by (simp_all add: last_pose_on_entry_def predict_pose_on_entry_def statics_on_entry_def)

lemma statics_later:
  assumes "predictor st = Some (s, l, p)"
  shows "last_pose_on_entry ext st = l" "predict_pose_on_entry ext st = p"
  using assms
  by (simp_all add: last_pose_on_entry_def predict_pose_on_entry_def statics_on_entry_def)

lemma statics_new_cloud:
  "last_pose_on_entry ext (snd (new_cloud c st)) = last_pose_on_entry ext st"
  "predict_pose_on_entry ext (snd (new_cloud c st)) = predict_pose_on_entry ext st"
  by (simp_all add: last_pose_on_entry_def predict_pose_on_entry_def statics_on_entry_def
      new_cloud_fields split: option.split)







section \<open>Zero motion\<close>

lemma zero_motion_step:
  assumes "pose_mult ext (pose_inverse ext P) P = pose_identity ext"
    and "pose_mult ext P (pose_identity ext) = P"
    and "last_pose_on_entry ext st = P" and "fst (Update ext scan st) = P"
  shows "predictor (snd (Update ext scan st)) = Some (pose_identity ext, P, P)"
  using assms by (simp add: Update_predictor)

lemma constant_engine_pose:
  assumes "\<forall>target source seed. snd (scan_match ext target source seed) = P"
  shows "fst (Update ext scan st) = P"
  using assms by (simp add: Update_fst scan_to_map_def Let_def split_def)

lemma zero_motion_run:
  assumes "pose_mult ext (pose_inverse ext P) P = pose_identity ext"
    and "pose_mult ext P (pose_identity ext) = P"
    and "\<forall>target source seed. snd (scan_match ext target source seed) = P"
    and "last_pose_on_entry ext st = P"
    and "scans \<noteq> []"
  shows "predictor (run ext (map UpdateScan scans) st) = Some (pose_identity ext, P, P)"
  using assms(5,4)
proof (induction scans arbitrary: st rule: rev_induct)
  case Nil
  then show ?case by simp
next
  case (snoc c scans)
  let ?s = "run ext (map UpdateScan scans) st"
  have last: "last_pose_on_entry ext ?s = P"
  proof (cases "scans = []")
    case True
    with snoc.prems show ?thesis by (simp add: run_Nil)
  next
    case False
    then have "predictor ?s = Some (pose_identity ext, P, P)"
      using snoc.IH snoc.prems by simp
    then show ?thesis by (rule statics_later)
  qed
  have "last_pose_on_entry ext (snd (new_cloud c ?s)) = P"
    using last by (simp add: statics_new_cloud)
  then have "predictor (snd (Update ext (fst (new_cloud c ?s)) (snd (new_cloud c ?s)))) =
      Some (pose_identity ext, P, P)"
    using assms(1,2) constant_engine_pose [OF assms(3)] by (intro zero_motion_step)
  then show ?case by (simp add: run_snoc split_def Let_def)
qed

text \<open>
  C9. Let \<open>P\<close> be a pose with \<open>inverse(P) * P = Identity\<close> and \<open>P * Identity = P\<close> (as
  for every invertible matrix in exact arithmetic). If an \<open>Update\<close> finds
  \<open>last_pose = P\<close> and refines to \<open>P\<close>, it leaves \<open>step_pose = Identity\<close>,
  \<open>last_pose = P\<close> and \<open>predict_pose = P\<close>. Hence, when every registration yields \<open>P\<close>,
  the prediction is \<open>P\<close> after every further \<open>Update\<close>; and from any state it is \<open>P\<close>
  from the second \<open>Update\<close> on.
\<close>

theorem zero_motion_fixpoint:
  assumes "pose_mult ext (pose_inverse ext P) P = pose_identity ext"
    and "pose_mult ext P (pose_identity ext) = P"
  shows "(last_pose_on_entry ext st = P \<and> fst (Update ext scan st) = P \<longrightarrow>
            predictor (snd (Update ext scan st)) = Some (pose_identity ext, P, P)) \<and>
         ((\<forall>target source seed. snd (scan_match ext target source seed) = P) \<longrightarrow>
            (\<forall>scans. last_pose_on_entry ext st = P \<and> scans \<noteq> [] \<longrightarrow>
               predictor (run ext (map UpdateScan scans) st) =
                 Some (pose_identity ext, P, P)) \<and>
            (\<forall>c scans. scans \<noteq> [] \<longrightarrow>
               predictor (run ext (map UpdateScan (c # scans)) st) =
                 Some (pose_identity ext, P, P)))"
proof -
  have one: "predictor (snd (Update ext scan st)) = Some (pose_identity ext, P, P)"
    if "last_pose_on_entry ext st = P" "fst (Update ext scan st) = P"
    using assms that by (rule zero_motion_step)
  have many: "predictor (run ext (map UpdateScan scans) st') = Some (pose_identity ext, P, P)"
    if "\<forall>target source seed. snd (scan_match ext target source seed) = P"
      "last_pose_on_entry ext st' = P" "scans \<noteq> []" for scans st'
    using assms that by (rule zero_motion_run)
  have settle: "predictor (run ext (map UpdateScan (c # scans)) st) =
      Some (pose_identity ext, P, P)"
    if eng: "\<forall>target source seed. snd (scan_match ext target source seed) = P"
      and ne: "scans \<noteq> []" for c scans
  proof -
    let ?s = "exec ext (UpdateScan c) st"
    have "fst (Update ext (fst (new_cloud c st)) (snd (new_cloud c st))) = P"
      using eng by (rule constant_engine_pose)
    then have "last_pose_on_entry ext ?s = P"
      by (simp add: split_def Let_def Update_predictor statics_later)
    with eng have "predictor (run ext (map UpdateScan scans) ?s) =
        Some (pose_identity ext, P, P)"
      using ne by (intro many)
    then show ?thesis by (simp add: run_Cons)
  qed
  from one many settle show ?thesis by blast
qed

lemma steady_ops:
  "pose_identity steady_collaborators = (0, 0, 0)"
  "pose_mult steady_collaborators (a, b, c) (d, e, f) = (a + d, b + e, c + f)"
  "pose_inverse steady_collaborators (a, b, c) = (- a, - b, - c)"
  "snd (scan_match steady_collaborators target source seed) = (120, 0, 0)"
  by (simp_all add: steady_collaborators_def example_collaborators_def)

theorem zero_motion_fixpoint_witness:
  "predictor (snd (Update steady_collaborators 3 one_fix_state)) =
     Some ((0, 0, 0), (120, 0, 0), (120, 0, 0)) \<and>
   predictor (run steady_collaborators (map UpdateScan [example_scan, example_scan])
     (Matching steady_collaborators)) = Some ((0, 0, 0), (120, 0, 0), (120, 0, 0))"
proof -
  let ?ex = steady_collaborators
  let ?P = "(120, 0, 0) :: real \<times> real \<times> real"
  have inv: "pose_mult ?ex (pose_inverse ?ex ?P) ?P = pose_identity ?ex"
    and unit: "pose_mult ?ex ?P (pose_identity ?ex) = ?P"
    by (simp_all add: steady_ops)
  have eng: "\<forall>target source seed. snd (scan_match ?ex target source seed) = ?P"
    by (simp add: steady_ops)
  have last: "last_pose_on_entry ?ex one_fix_state = ?P"
    by (simp add: statics_first one_fix_state_fields)
  have pose: "fst (Update ?ex 3 one_fix_state) = ?P"
    using eng by (rule constant_engine_pose)
  have ne: "[example_scan] \<noteq> []" by simp
  from zero_motion_fixpoint [OF inv unit, of one_fix_state 3] last pose
  have 1: "predictor (snd (Update ?ex 3 one_fix_state)) = Some (pose_identity ?ex, ?P, ?P)"
    by blast
  from zero_motion_fixpoint [OF inv unit, of "Matching ?ex"] eng ne
  have 2: "predictor (run ?ex (map UpdateScan (example_scan # [example_scan])) (Matching ?ex)) =
      Some (pose_identity ?ex, ?P, ?P)"
    by blast
  from 1 2 show ?thesis by (simp add: steady_ops)
qed

section \<open>Place recognition\<close>

text \<open>
  C6. When the index proposes a pose, \<open>SetScanContextPose\<close> returns true: the pose is
  the initial pose, the local map is recentred on its position (the box, the local map's
  cloud, the registration target, one log line), \<open>HasInited\<close> is true, and the counter of
  coarse fixes is untouched. When the index finds nothing it returns false and the state
  is the state before the call.
\<close>

theorem place_recognition:
  "(\<forall>pose. detect_loop_closure ext (heap st scan) = Some pose \<longrightarrow>
      fst (SetScanContextPose ext scan st) = True \<and>
      snd (SetScanContextPose ext scan st) =
        (SetInitPose ext pose st)
          \<lparr>has_inited := True,
           info_log := info_log (SetInitPose ext pose st) @ [LogInitPose pose]\<rparr> \<and>
      GetInitPose (snd (SetScanContextPose ext scan st)) = pose \<and>
      HasInited (snd (SetScanContextPose ext scan st)) \<and>
      arbiter_state (snd (SetScanContextPose ext scan st)) = Tracking \<and>
      gnss_cnt (snd (SetScanContextPose ext scan st)) = gnss_cnt st \<and>
      box_origin (snd (SetScanContextPose ext scan st)) = position ext pose \<and>
      heap (snd (SetScanContextPose ext scan st)) =
        (heap st)(local_map_ptr st :=
           box_filter ext (position ext pose) (heap st (global_map_ptr st))) \<and>
      reg_target (snd (SetScanContextPose ext scan st)) =
        box_filter ext (position ext pose) (heap st (global_map_ptr st)) \<and>
      HasNewLocalMap (snd (SetScanContextPose ext scan st)) \<and>
      info_log (snd (SetScanContextPose ext scan st)) =
        info_log st @ [LogNewLocalMap (box_edge ext (position ext pose)), LogInitPose pose]) \<and>
   (detect_loop_closure ext (heap st scan) = None \<longrightarrow>
      SetScanContextPose ext scan st = (False, st))"
  by (simp add: SetScanContextPose_def Let_def GetInitPose_def HasInited_def
      HasNewLocalMap_def arbiter_state_def SetInitPose_same SetInitPose_new)

lemma one_fix_state_scan: "heap one_fix_state 3 = example_scan"
  by (simp add: one_fix_state_def new_cloud_fields SetGNSSPose_fields Matching_fields)

theorem place_recognition_witness:
  "fst (SetScanContextPose example_collaborators 3 one_fix_state) = True \<and>
   GetInitPose (snd (SetScanContextPose example_collaborators 3 one_fix_state)) = (10, 0, 0) \<and>
   box_origin (snd (SetScanContextPose example_collaborators 3 one_fix_state)) =
     (Finite 10, Finite 0, Finite 0) \<and>
   HasInited (snd (SetScanContextPose example_collaborators 3 one_fix_state)) \<and>
   SetScanContextPose example_collaborators 3
     (snd (new_cloud [] (Matching example_collaborators))) =
     (False, snd (new_cloud [] (Matching example_collaborators)))"
proof -
  let ?ex = example_collaborators
  let ?e = "snd (new_cloud [] (Matching ?ex))"
  have found: "detect_loop_closure ?ex (heap one_fix_state 3) = Some (10, 0, 0)"
    by (simp add: one_fix_state_scan example_scan_def example_collaborators_def)
  have absent: "detect_loop_closure ?ex (heap ?e 3) = None"
    by (simp add: new_cloud_fields Matching_fields example_collaborators_def)
  have 1: "fst (SetScanContextPose ?ex 3 one_fix_state) = True \<and>
      GetInitPose (snd (SetScanContextPose ?ex 3 one_fix_state)) = (10, 0, 0) \<and>
      box_origin (snd (SetScanContextPose ?ex 3 one_fix_state)) = position ?ex (10, 0, 0) \<and>
      HasInited (snd (SetScanContextPose ?ex 3 one_fix_state))"
    using place_recognition [of ?ex one_fix_state 3, THEN conjunct1, THEN spec, THEN mp,
        OF found]
    by (elim conjE) (intro conjI)
  have "detect_loop_closure ?ex (heap ?e 3) = None \<longrightarrow>
      SetScanContextPose ?ex 3 ?e = (False, ?e)"
    using place_recognition [of ?ex ?e 3] by (rule conjunct2)
  then have 2: "SetScanContextPose ?ex 3 ?e = (False, ?e)"
    using absent by (rule mp)
  from 1 2 show ?thesis by (simp add: example_ops)
qed

section \<open>The dirty flags\<close>

lemma has_new_local_map_Update:
  assumes "has_new_local_map st"
  shows "has_new_local_map (snd (Update ext a st))"
  using Update_cases [of ext a st] assms
  by (auto simp add: ResetLocalMap_new scan_to_map_same)

lemma has_new_local_map_SetScanContextPose:
  assumes "has_new_local_map st"
  shows "has_new_local_map (snd (SetScanContextPose ext a st))"
  using assms
  by (simp add: SetScanContextPose_def Let_def SetInitPose_new split: option.split)

lemma has_new_local_map_exec:
  assumes "has_new_local_map st"
  shows "has_new_local_map (exec ext c st)"
proof -
  have stored: "has_new_local_map (snd (new_cloud cl st))" for cl
    using assms by (simp add: new_cloud_fields)
  show ?thesis
  proof (cases c)
    case (SubmitCoarseFix g)
    have "has_new_local_map (SetGNSSPose ext g st)"
      using assms by (simp add: SetGNSSPose_def Let_def SetInitPose_new)
    with SubmitCoarseFix show ?thesis by simp
  next
    case (SubmitPlaceRecognition cl)
    have "has_new_local_map (snd (SetScanContextPose ext (next_addr st) (snd (new_cloud cl st))))"
      using stored by (rule has_new_local_map_SetScanContextPose)
    with SubmitPlaceRecognition show ?thesis by (simp only: exec_stored)
  next
    case MarkInitialized
    with assms show ?thesis by (simp add: SetInited_def)
  next
    case (UpdateScan cl)
    have "has_new_local_map (snd (Update ext (next_addr st) (snd (new_cloud cl st))))"
      using stored by (rule has_new_local_map_Update)
    with UpdateScan show ?thesis by (simp only: exec_stored)
  next
    case GlobalMapForDisplay
    have "has_new_local_map (GetGlobalMap ext (next_addr st) (snd (new_cloud [] st)))"
      using stored by (simp add: GetGlobalMap_fields)
    with GlobalMapForDisplay show ?thesis by (simp only: exec_stored)
  next
    case LocalMap
    with assms show ?thesis by (simp add: GetLocalMap_def)
  qed
qed

lemma has_new_local_map_run:
  assumes "has_new_local_map st"
  shows "has_new_local_map (run ext cs st)"
  using assms
proof (induction cs arbitrary: st)
  case Nil
  then show ?case by (simp add: run_Nil)
next
  case (Cons c cs)
  have "has_new_local_map (exec ext c st)"
    using Cons.prems by (rule has_new_local_map_exec)
  then have "has_new_local_map (run ext cs (exec ext c st))"
    by (rule Cons.IH)
  then show ?case by (simp only: run_Cons)
qed

text \<open>
  C8, as the code behaves. \<open>GetGlobalMap\<close> clears the global map's flag. \<open>GetLocalMap\<close>
  leaves the local map's flag as it is, and no other function clears it:
  \<open>HasNewLocalMap\<close> answers true in the constructed state, after a read of the local
  map, and after every run of calls.
\<close>

theorem local_map_flag_stays_set:
  "\<not> HasNewGlobalMap (GetGlobalMap ext out st) \<and>
   HasNewLocalMap (snd (GetLocalMap st)) = HasNewLocalMap st \<and>
   HasNewLocalMap (snd (GetLocalMap (Matching ext))) \<and>
   HasNewLocalMap (run ext cs (Matching ext))"
proof -
  have "has_new_local_map (Matching ext)"
    by (simp add: Matching_fields)
  then have "has_new_local_map (run ext cs (Matching ext))"
    by (rule has_new_local_map_run)
  then show ?thesis
    by (simp add: HasNewGlobalMap_def HasNewLocalMap_def GetGlobalMap_fields GetLocalMap_def
        Matching_fields)
qed

section \<open>The clouds in the store\<close>

lemma well_formed_Matching: "well_formed (Matching ext)"
  by (simp add: well_formed_def Matching_fields)

lemma well_formed_new_cloud:
  assumes "well_formed st"
  shows "well_formed (snd (new_cloud c st))"
  using assms by (simp add: well_formed_def new_cloud_fields)

lemma well_formed_ResetLocalMap:
  assumes "well_formed st"
  shows "well_formed (ResetLocalMap ext x y z st)"
  using assms by (simp add: well_formed_def ResetLocalMap_same)

lemma well_formed_Update:
  assumes "well_formed st"
  shows "well_formed (snd (Update ext scan st))"
  using assms by (simp add: well_formed_def Update_same)

lemma Update_heap_other:
  assumes "a \<noteq> local_map_ptr st"
  shows "heap (snd (Update ext scan st)) a = heap (snd (scan_to_map ext scan st)) a"
  using Update_cases [of ext scan st] assms
  by (auto simp add: ResetLocalMap_new scan_to_map_same)

lemma Update_local_map:
  "(snd (Update ext scan st) = snd (scan_to_map ext scan st) \<and>
    box_origin (snd (Update ext scan st)) = box_origin st \<and>
    reg_target (snd (Update ext scan st)) = reg_target st) \<or>
   (heap (snd (Update ext scan st)) (local_map_ptr st) =
      box_filter ext (box_origin (snd (Update ext scan st)))
        (heap (snd (scan_to_map ext scan st)) (global_map_ptr st)) \<and>
    reg_target (snd (Update ext scan st)) =
      box_filter ext (box_origin (snd (Update ext scan st)))
        (heap (snd (scan_to_map ext scan st)) (global_map_ptr st)))"
  using Update_cases [of ext scan st]
  by (auto simp add: ResetLocalMap_new scan_to_map_same)

lemma scan_to_map_heap_member:
  assumes "well_formed st" and "scan < next_addr st" and "a < next_addr st"
    and "a \<noteq> scan" and "a \<noteq> current_scan_ptr st"
  shows "heap (snd (scan_to_map ext scan st)) a = heap st a"
  using assms by (simp add: scan_to_map_heap)

section \<open>The stored global map\<close>

lemma map_inv_Matching: "map_inv ext (Matching ext)"
  by (simp add: map_inv_def well_formed_Matching Matching_fields Matching_clouds)

lemma map_inv_new_cloud:
  assumes "map_inv ext st"
  shows "map_inv ext (snd (new_cloud c st))"
  using assms by (auto simp add: map_inv_def well_formed_def new_cloud_fields)

lemma map_inv_ResetLocalMap:
  assumes "map_inv ext st"
  shows "map_inv ext (ResetLocalMap ext x y z st)"
  using assms
  by (auto simp add: map_inv_def well_formed_def ResetLocalMap_same ResetLocalMap_new)

lemma map_inv_SetInitPose:
  assumes "map_inv ext st"
  shows "map_inv ext (SetInitPose ext pose st)"
proof -
  have "map_inv ext (st\<lparr>init_pose := pose\<rparr>)"
    using assms by (simp add: map_inv_def well_formed_def)
  then show ?thesis
    unfolding SetInitPose_def by (rule map_inv_ResetLocalMap)
qed

lemma map_inv_fields:
  assumes "map_inv ext st"
    and "heap st' = heap st" "next_addr st' = next_addr st"
    and "global_map_ptr st' = global_map_ptr st" "local_map_ptr st' = local_map_ptr st"
    and "current_scan_ptr st' = current_scan_ptr st"
    and "box_origin st' = box_origin st" "reg_target st' = reg_target st"
  shows "map_inv ext st'"
  using assms by (simp add: map_inv_def well_formed_def)

lemma map_inv_SetGNSSPose:
  assumes "map_inv ext st"
  shows "map_inv ext (SetGNSSPose ext g st)"
  using assms
  by (auto simp add: map_inv_def well_formed_def SetGNSSPose_fields SetGNSSPose_heap)

lemma map_inv_SetScanContextPose:
  assumes "map_inv ext st"
  shows "map_inv ext (snd (SetScanContextPose ext a st))"
proof (cases "detect_loop_closure ext (heap st a)")
  case None
  with assms show ?thesis by (simp add: SetScanContextPose_def)
next
  case (Some pose)
  have "map_inv ext (SetInitPose ext pose st)"
    using assms by (rule map_inv_SetInitPose)
  then have "map_inv ext ((SetInitPose ext pose st)
      \<lparr>has_inited := True, info_log := info_log (SetInitPose ext pose st) @ [LogInitPose pose]\<rparr>)"
    by (rule map_inv_fields) simp_all
  with Some show ?thesis by (simp add: SetScanContextPose_def Let_def)
qed

lemma map_inv_Update:
  assumes "map_inv ext st" and "scan < next_addr st"
    and "scan \<noteq> global_map_ptr st" and "scan \<noteq> local_map_ptr st"
  shows "map_inv ext (snd (Update ext scan st))"
proof -
  let ?m = "snd (scan_to_map ext scan st)" and ?u = "snd (Update ext scan st)"
  let ?G = "local_map_filter ext (loaded_map ext)"
  from assms(1) have wf: "well_formed st"
    and global: "heap st (global_map_ptr st) = ?G"
    and local: "heap st (local_map_ptr st) = box_filter ext (box_origin st) ?G"
    and target: "reg_target st = heap st (local_map_ptr st)"
    by (simp_all add: map_inv_def)
  from wf have ptrs: "global_map_ptr st < next_addr st" "local_map_ptr st < next_addr st"
    "global_map_ptr st \<noteq> current_scan_ptr st" "local_map_ptr st \<noteq> current_scan_ptr st"
    "global_map_ptr st \<noteq> local_map_ptr st"
    by (simp_all add: well_formed_def)
  have mg: "heap ?m (global_map_ptr st) = ?G"
    using wf assms(2) ptrs assms(3) global by (simp add: scan_to_map_heap_member)
  have ml: "heap ?m (local_map_ptr st) = heap st (local_map_ptr st)"
    using wf assms(2) ptrs assms(4) by (simp add: scan_to_map_heap_member)
  have ug: "heap ?u (global_map_ptr st) = ?G"
    using ptrs mg by (simp add: Update_heap_other)
  have wfu: "well_formed ?u"
    using wf by (rule well_formed_Update)
  from Update_local_map [of ext scan st]
  have "heap ?u (local_map_ptr st) = box_filter ext (box_origin ?u) ?G \<and>
      reg_target ?u = heap ?u (local_map_ptr st)"
  proof
    assume "?u = ?m \<and> box_origin ?u = box_origin st \<and> reg_target ?u = reg_target st"
    then show ?thesis using ml local target by (simp add: scan_to_map_same)
  next
    assume "heap ?u (local_map_ptr st) =
        box_filter ext (box_origin ?u) (heap ?m (global_map_ptr st)) \<and>
      reg_target ?u = box_filter ext (box_origin ?u) (heap ?m (global_map_ptr st))"
    then show ?thesis using mg by simp
  qed
  with ug wfu show ?thesis by (simp add: map_inv_def Update_same)
qed

lemma map_inv_GetGlobalMap:
  assumes "map_inv ext st" and "out \<noteq> global_map_ptr st" and "out \<noteq> local_map_ptr st"
  shows "map_inv ext (GetGlobalMap ext out st)"
  using assms by (simp add: map_inv_def well_formed_def GetGlobalMap_fields)

lemma map_inv_exec:
  assumes "map_inv ext st"
  shows "map_inv ext (exec ext c st)"
proof -
  have stored: "map_inv ext (snd (new_cloud cl st))" for cl
    using assms by (rule map_inv_new_cloud)
  have fresh: "next_addr st < next_addr (snd (new_cloud cl st))"
    "next_addr st \<noteq> global_map_ptr (snd (new_cloud cl st))"
    "next_addr st \<noteq> local_map_ptr (snd (new_cloud cl st))" for cl
    using assms by (auto simp add: map_inv_def well_formed_def new_cloud_fields)
  show ?thesis
  proof (cases c)
    case (SubmitCoarseFix g)
    with assms show ?thesis by (simp add: map_inv_SetGNSSPose)
  next
    case (SubmitPlaceRecognition cl)
    have "map_inv ext (snd (SetScanContextPose ext (next_addr st) (snd (new_cloud cl st))))"
      using stored by (rule map_inv_SetScanContextPose)
    with SubmitPlaceRecognition show ?thesis by (simp only: exec_stored)
  next
    case MarkInitialized
    have "map_inv ext (st\<lparr>has_inited := True\<rparr>)"
      using assms by (rule map_inv_fields) simp_all
    with MarkInitialized show ?thesis by (simp add: SetInited_def)
  next
    case (UpdateScan cl)
    have "map_inv ext (snd (Update ext (next_addr st) (snd (new_cloud cl st))))"
      using stored fresh by (rule map_inv_Update)
    with UpdateScan show ?thesis by (simp only: exec_stored)
  next
    case GlobalMapForDisplay
    have "map_inv ext (GetGlobalMap ext (next_addr st) (snd (new_cloud [] st)))"
      using stored fresh(2,3) by (rule map_inv_GetGlobalMap)
    with GlobalMapForDisplay show ?thesis by (simp only: exec_stored)
  next
    case LocalMap
    with assms show ?thesis by (simp add: GetLocalMap_def)
  qed
qed

lemma map_inv_run:
  assumes "map_inv ext st"
  shows "map_inv ext (run ext cs st)"
  using assms
proof (induction cs arbitrary: st)
  case Nil
  then show ?case by (simp add: run_Nil)
next
  case (Cons c cs)
  have "map_inv ext (exec ext c st)"
    using Cons.prems by (rule map_inv_exec)
  then have "map_inv ext (run ext cs (exec ext c st))"
    by (rule Cons.IH)
  then show ?case by (simp only: run_Cons)
qed

text \<open>
  C2 (as the code has it). \<open>InitGlobalMap\<close> passes the loaded map through the
  local-map filter and keeps the result as the cloud of \<open>global_map_ptr_\<close>. In every
  state reached from the constructed one this cloud is that filtered map: no call
  changes it. The local map and the registration target are what the box filter selects
  from it; every \<open>ResetLocalMap\<close> hands this stored, filtered cloud to the box filter.
  The copy made for display is the global-map filter's output in the caller's cloud; making
  it leaves the local map and the registration target as they are. Where the local-map
  filter keeps every point, the stored cloud is the loaded map.
\<close>

theorem global_map_stored_filtered:
  assumes "st = run ext cs (Matching ext)"
  shows "heap st (global_map_ptr st) = local_map_filter ext (loaded_map ext) \<and>
    heap st (local_map_ptr st) =
      box_filter ext (box_origin st) (local_map_filter ext (loaded_map ext)) \<and>
    reg_target st = box_filter ext (box_origin st) (local_map_filter ext (loaded_map ext)) \<and>
    heap (ResetLocalMap ext x y z st) (global_map_ptr st) =
      local_map_filter ext (loaded_map ext) \<and>
    heap (ResetLocalMap ext x y z st) (local_map_ptr st) =
      box_filter ext (x, y, z) (local_map_filter ext (loaded_map ext)) \<and>
    reg_target (ResetLocalMap ext x y z st) =
      box_filter ext (x, y, z) (local_map_filter ext (loaded_map ext)) \<and>
    heap (exec ext GlobalMapForDisplay st) (next_addr st) =
      global_map_filter ext (local_map_filter ext (loaded_map ext)) \<and>
    heap (exec ext GlobalMapForDisplay st) (local_map_ptr st) = heap st (local_map_ptr st) \<and>
    reg_target (exec ext GlobalMapForDisplay st) = reg_target st \<and>
    ((\<forall>c. local_map_filter ext c = c) \<longrightarrow> heap st (global_map_ptr st) = loaded_map ext)"
proof -
  let ?G = "local_map_filter ext (loaded_map ext)"
  have inv: "map_inv ext st"
    unfolding assms by (intro map_inv_run map_inv_Matching)
  then have global: "heap st (global_map_ptr st) = ?G"
    and local: "heap st (local_map_ptr st) = box_filter ext (box_origin st) ?G"
    and target: "reg_target st = box_filter ext (box_origin st) ?G"
    and ptrs: "global_map_ptr st \<noteq> local_map_ptr st" "global_map_ptr st < next_addr st"
      "local_map_ptr st < next_addr st"
    by (simp_all add: map_inv_def well_formed_def)
  have reset: "heap (ResetLocalMap ext x y z st) (global_map_ptr st) = ?G"
    "heap (ResetLocalMap ext x y z st) (local_map_ptr st) = box_filter ext (x, y, z) ?G"
    "reg_target (ResetLocalMap ext x y z st) = box_filter ext (x, y, z) ?G"
    using global ptrs by (simp_all add: ResetLocalMap_new)
  have display: "heap (exec ext GlobalMapForDisplay st) (next_addr st) =
      global_map_filter ext ?G"
    "heap (exec ext GlobalMapForDisplay st) (local_map_ptr st) = heap st (local_map_ptr st)"
    "reg_target (exec ext GlobalMapForDisplay st) = reg_target st"
    using global ptrs
    by (simp_all add: exec_stored GetGlobalMap_fields new_cloud_fields del: exec.simps)
  have plain: "heap st (global_map_ptr st) = loaded_map ext"
    if "\<forall>c. local_map_filter ext c = c"
    using that global by simp
  from global local target reset display plain show ?thesis by blast
qed

lemma example_global_map:
  "local_map_filter example_collaborators (loaded_map example_collaborators) =
     [(Finite 1, Finite 2, Finite 0), (Finite 200, Finite 0, Finite 0)]"
  by (simp add: example_collaborators_def)

lemma unfiltered_global_map:
  "\<forall>c. local_map_filter unfiltered_collaborators c = c"
  "loaded_map unfiltered_collaborators =
     [(Finite 1, Finite 2, Finite 0), (Finite 1, Finite 2, Finite 0),
      (Finite 200, Finite 0, Finite 0)]"
  by (simp_all add: unfiltered_collaborators_def example_collaborators_def)

theorem global_map_stored_filtered_witness:
  "heap (run example_collaborators
           [SubmitCoarseFix (120, 0, 0), UpdateScan example_scan, GlobalMapForDisplay]
           (Matching example_collaborators))
     (global_map_ptr (run example_collaborators
           [SubmitCoarseFix (120, 0, 0), UpdateScan example_scan, GlobalMapForDisplay]
           (Matching example_collaborators))) =
     [(Finite 1, Finite 2, Finite 0), (Finite 200, Finite 0, Finite 0)] \<and>
   heap (run unfiltered_collaborators [UpdateScan example_scan]
           (Matching unfiltered_collaborators))
     (global_map_ptr (run unfiltered_collaborators [UpdateScan example_scan]
           (Matching unfiltered_collaborators))) =
     [(Finite 1, Finite 2, Finite 0), (Finite 1, Finite 2, Finite 0),
      (Finite 200, Finite 0, Finite 0)]"
proof -
  have 1: "heap (run example_collaborators
           [SubmitCoarseFix (120, 0, 0), UpdateScan example_scan, GlobalMapForDisplay]
           (Matching example_collaborators))
     (global_map_ptr (run example_collaborators
           [SubmitCoarseFix (120, 0, 0), UpdateScan example_scan, GlobalMapForDisplay]
           (Matching example_collaborators))) =
     [(Finite 1, Finite 2, Finite 0), (Finite 200, Finite 0, Finite 0)]"
    using global_map_stored_filtered [OF refl, of example_collaborators
      "[SubmitCoarseFix (120, 0, 0), UpdateScan example_scan, GlobalMapForDisplay]"]
    by (simp only: example_global_map)
  have 2: "heap (run unfiltered_collaborators [UpdateScan example_scan]
           (Matching unfiltered_collaborators))
     (global_map_ptr (run unfiltered_collaborators [UpdateScan example_scan]
           (Matching unfiltered_collaborators))) = loaded_map unfiltered_collaborators"
    using global_map_stored_filtered [OF refl, of unfiltered_collaborators
      "[UpdateScan example_scan]"] unfiltered_global_map(1)
    by blast
  from 1 2 show ?thesis by (simp only: unfiltered_global_map(2))
qed

text \<open>
  C2 as stated fails: with a local-map filter that merges equal points, the cloud kept as
  the global map is not the loaded map, and the local map is not what the box filter
  selects from the loaded map.
\<close>

theorem global_map_not_as_loaded:
  "loaded_map example_collaborators =
     [(Finite 1, Finite 2, Finite 0), (Finite 1, Finite 2, Finite 0),
      (Finite 200, Finite 0, Finite 0)] \<and>
   heap (Matching example_collaborators) (global_map_ptr (Matching example_collaborators)) =
     [(Finite 1, Finite 2, Finite 0), (Finite 200, Finite 0, Finite 0)] \<and>
   heap (Matching example_collaborators) (global_map_ptr (Matching example_collaborators)) \<noteq>
     loaded_map example_collaborators \<and>
   box_filter example_collaborators (Finite 0, Finite 0, Finite 0)
       (loaded_map example_collaborators) =
     [(Finite 1, Finite 2, Finite 0), (Finite 1, Finite 2, Finite 0)] \<and>
   heap (Matching example_collaborators) (local_map_ptr (Matching example_collaborators)) =
     [(Finite 1, Finite 2, Finite 0)] \<and>
   reg_target (Matching example_collaborators) \<noteq>
     box_filter example_collaborators (Finite 0, Finite 0, Finite 0)
       (loaded_map example_collaborators)"
  by (simp add: Matching_fields Matching_clouds example_collaborators_def example_edge_def)

section \<open>The caller's scan\<close>

text \<open>
  C10. Let the caller's scan be an allocated cloud other than the local map's and the
  current scan's (those two the call overwrites). After \<open>Update\<close> the caller's cloud holds exactly the points of the scan
  with three finite coordinates, in their order; the current scan is the transform of
  this cleaned cloud by the refined pose; the downsampled scan and the registration result
  are stored at the two addresses allocated by the call, which were not allocated
  before and so differ from the caller's cloud and from the three member clouds.
\<close>

theorem update_cleans_in_place:
  assumes "well_formed st" and "allocated st scan"
    and "scan \<noteq> local_map_ptr st" and "scan \<noteq> current_scan_ptr st"
  shows "heap (snd (Update ext scan st)) scan = filter finite_point (heap st scan) \<and>
    heap (snd (Update ext scan st)) (current_scan_ptr st) =
      transform_cloud ext (fst (Update ext scan st)) (filter finite_point (heap st scan)) \<and>
    heap (snd (Update ext scan st)) (next_addr st) =
      frame_filter ext (filter finite_point (heap st scan)) \<and>
    heap (snd (Update ext scan st)) (Suc (next_addr st)) =
      fst (scan_match ext (reg_target st) (frame_filter ext (filter finite_point (heap st scan)))
             (if has_inited st then predict_pose_on_entry ext st else current_gnss_pose st)) \<and>
    \<not> allocated st (next_addr st) \<and> \<not> allocated st (Suc (next_addr st)) \<and>
    allocated (snd (Update ext scan st)) (next_addr st) \<and>
    allocated (snd (Update ext scan st)) (Suc (next_addr st)) \<and>
    {next_addr st, Suc (next_addr st)} \<inter>
      {scan, global_map_ptr st, local_map_ptr st, current_scan_ptr st} = {}"
proof -
  have alloc: "scan < next_addr st"
    using assms(2) by (simp add: allocated_def)
  let ?u = "snd (Update ext scan st)" and ?m = "snd (scan_to_map ext scan st)"
  let ?clean = "filter finite_point (heap st scan)"
  from assms(1) have ptrs: "global_map_ptr st < next_addr st" "local_map_ptr st < next_addr st"
    "current_scan_ptr st < next_addr st" "local_map_ptr st \<noteq> current_scan_ptr st"
    by (simp_all add: well_formed_def)
  have u: "heap ?u a = heap ?m a" if "a \<noteq> local_map_ptr st" for a
    using that by (rule Update_heap_other)
  have m: "heap ?m =
     (heap st)
       (scan := ?clean,
        next_addr st := frame_filter ext ?clean,
        Suc (next_addr st) :=
          fst (scan_match ext (reg_target st) (frame_filter ext ?clean)
                 (if has_inited st then predict_pose_on_entry ext st
                  else current_gnss_pose st)),
        current_scan_ptr st := transform_cloud ext (fst (Update ext scan st)) ?clean)"
    using alloc by (simp add: scan_to_map_heap removeNaNFromPointCloud_def Update_fst)
  have 1: "heap ?u scan = ?clean"
    using assms(3,4) alloc ptrs by (simp add: u m)
  have 2: "heap ?u (current_scan_ptr st) =
      transform_cloud ext (fst (Update ext scan st)) ?clean"
    using ptrs by (simp add: u m)
  have 3: "heap ?u (next_addr st) = frame_filter ext ?clean"
    using ptrs by (simp add: u m)
  have 4: "heap ?u (Suc (next_addr st)) =
      fst (scan_match ext (reg_target st) (frame_filter ext ?clean)
             (if has_inited st then predict_pose_on_entry ext st else current_gnss_pose st))"
    using ptrs by (simp add: u m)
  have 5: "{next_addr st, Suc (next_addr st)} \<inter>
      {scan, global_map_ptr st, local_map_ptr st, current_scan_ptr st} = {}"
    using alloc ptrs by auto
  from 1 2 3 4 5 show ?thesis by (simp add: allocated_def Update_same)
qed

lemma one_fix_state_well_formed: "well_formed one_fix_state"
  unfolding one_fix_state_def
  by (simp add: well_formed_def new_cloud_fields SetGNSSPose_fields Matching_fields)

lemma one_fix_state_ptrs:
  "local_map_ptr one_fix_state = 1" "current_scan_ptr one_fix_state = 2"
  by (simp_all add: one_fix_state_def new_cloud_fields SetGNSSPose_fields Matching_fields)

lemma example_clouds:
  "transform_cloud example_collaborators P c = map (translate P) c"
  "fst (scan_match example_collaborators target source seed) = map (translate seed) source"
  by (simp_all add: example_collaborators_def)

theorem update_cleans_in_place_witness:
  "heap one_fix_state 3 = [(Finite 3, Finite 4, Finite 5), (Finite 1, NaN, Finite 0)] \<and>
   heap (snd (Update example_collaborators 3 one_fix_state)) 3 =
     [(Finite 3, Finite 4, Finite 5)] \<and>
   heap (snd (Update example_collaborators 3 one_fix_state)) 2 =
     [(Finite 123, Finite 4, Finite 5)] \<and>
   heap (snd (Update example_collaborators 3 one_fix_state)) 4 =
     [(Finite 3, Finite 4, Finite 5)] \<and>
   heap (snd (Update example_collaborators 3 one_fix_state)) 5 =
     [(Finite 123, Finite 4, Finite 5)]"
proof -
  let ?ex = example_collaborators
  have alloc: "allocated one_fix_state 3" and a: "3 \<noteq> local_map_ptr one_fix_state"
    and b: "3 \<noteq> current_scan_ptr one_fix_state"
    by (simp_all add: allocated_def one_fix_state_fields one_fix_state_ptrs)
  have pose: "fst (Update ?ex 3 one_fix_state) = (120, 0, 0)"
    by (simp add: Update_fst one_fix_pose)
  have five: "Suc 4 = 5" by simp
  from update_cleans_in_place [OF one_fix_state_well_formed alloc a b, of ?ex]
  show ?thesis
    by (simp add: one_fix_state_scan one_fix_state_fields one_fix_state_ptrs pose five
        example_scan_def example_ops example_clouds)
qed

end
